theory Spec2Isabelle
  imports Main
begin

section \<open>JavaScript values used by the pages\<close>

text \<open>
  A JavaScript string is modelled as a HOL \<open>string\<close>, so its code units are below
  256; \<open>undefined\<close> and \<open>null\<close> are \<open>None\<close>.  The two helpers below are the truthiness test of an optional string and
  the expression \<open>s || d\<close> on it: \<open>undefined\<close> and the empty string are falsy.
\<close>

definition truthy :: "string option \<Rightarrow> bool" where
  "truthy v = (case v of None \<Rightarrow> False | Some s \<Rightarrow> s \<noteq> [])"

definition or_else :: "string option \<Rightarrow> string \<Rightarrow> string" where
  "or_else v d = (case v of None \<Rightarrow> d | Some s \<Rightarrow> if s = [] then d else s)"

section \<open>Catalog and detail pages: delete confirmation\<close>

text \<open>
  \<open>Tool\<close> and \<open>Agent\<close> of \<open>types/index.ts\<close>; the handlers read \<open>name\<close> and
  \<open>namespace\<close> only.
\<close>

record Tool =
  tool_name :: string
  tool_namespace :: string
  tool_description :: string
  tool_status :: string

record Agent =
  agent_name :: string
  agent_namespace :: string
  agent_description :: string
  agent_status :: string

text \<open>
  A call of the REST client.  \<open>toolService.delete(ns, name)\<close> and
  \<open>agentService.delete(ns, name)\<close>; on the detail page both arguments come from the
  route and may be \<open>undefined\<close>.
\<close>

datatype delete_call =
  ToolServiceDelete "string option" "string option"
| AgentServiceDelete "string option" "string option"

record ToolCatalogPage =
  tc_toolToDelete :: "Tool option"
  tc_deleteConfirmText :: string

record AgentCatalogPage =
  ac_agentToDelete :: "Agent option"
  ac_deleteConfirmText :: string

record ToolDetailPage =
  td_namespace :: "string option"
  td_name :: "string option"
  td_deleteConfirmText :: string

text \<open>\<open>handleDeleteConfirm\<close> of \<open>ToolCatalogPage\<close>: the call dispatched, if any.\<close>

definition tool_catalog_handleDeleteConfirm :: "ToolCatalogPage \<Rightarrow> delete_call option" where
  "tool_catalog_handleDeleteConfirm p =
     (case tc_toolToDelete p of
        None \<Rightarrow> None
      | Some toolToDelete \<Rightarrow>
          if tc_deleteConfirmText p = tool_name toolToDelete
          then Some (ToolServiceDelete (Some (tool_namespace toolToDelete))
                                       (Some (tool_name toolToDelete)))
          else None)"

text \<open>\<open>handleDeleteConfirm\<close> of \<open>AgentCatalogPage\<close>.\<close>

definition agent_catalog_handleDeleteConfirm :: "AgentCatalogPage \<Rightarrow> delete_call option" where
  "agent_catalog_handleDeleteConfirm p =
     (case ac_agentToDelete p of
        None \<Rightarrow> None
      | Some agentToDelete \<Rightarrow>
          if ac_deleteConfirmText p = agent_name agentToDelete
          then Some (AgentServiceDelete (Some (agent_namespace agentToDelete))
                                        (Some (agent_name agentToDelete)))
          else None)"

text \<open>
  \<open>handleDeleteConfirm\<close> of \<open>ToolDetailPage\<close>: \<open>deleteConfirmText === name\<close>, where
  \<open>name\<close> is the route parameter; a string is never strictly equal to \<open>undefined\<close>.
\<close>

definition tool_detail_handleDeleteConfirm :: "ToolDetailPage \<Rightarrow> delete_call option" where
  "tool_detail_handleDeleteConfirm p =
     (if Some (td_deleteConfirmText p) = td_name p
      then Some (ToolServiceDelete (td_namespace p) (td_name p))
      else None)"

section \<open>Tool detail page: polling and URLs\<close>

text \<open>\<open>ToolDetail\<close>, as far as the status query reads it.\<close>

record ToolDetail =
  readyStatus :: "string option"

text \<open>
  \<open>refetchInterval\<close> of the tool query; \<open>query.state.data\<close> is \<open>undefined\<close> until the
  first fetch succeeds.  \<open>None\<close> is the result \<open>false\<close> (no refetch), \<open>Some n\<close> is an
  interval of \<open>n\<close> milliseconds.
\<close>

definition refetchInterval :: "ToolDetail option \<Rightarrow> nat option" where
  "refetchInterval data =
     (let rs = or_else (case data of None \<Rightarrow> None | Some d \<Rightarrow> readyStatus d) []
      in if rs = ''Ready'' then None else Some 5000)"

text \<open>
  The URLs the detail page derives.  They are computed only after the early returns, so
  the tool was fetched and both route parameters are strings.
\<close>

definition toolExternalUrl :: "bool \<Rightarrow> string \<Rightarrow> string \<Rightarrow> string \<Rightarrow> string" where
  "toolExternalUrl hasRoute name namespace domainName =
     (if hasRoute
      then ''http://'' @ name @ ''.'' @ namespace @ ''.'' @ domainName @ '':8080/mcp''
      else ''http://'' @ name @ ''-mcp.'' @ namespace @ ''.svc.cluster.local:8000/mcp'')"

definition mcpInClusterUrl :: "string \<Rightarrow> string \<Rightarrow> string" where
  "mcpInClusterUrl name namespace =
     ''http://'' @ name @ ''-mcp.'' @ namespace @ ''.svc.cluster.local:8000/mcp''"

section \<open>Import page: form state\<close>

datatype DeploymentMethod = DM_source | DM_image

datatype WorkloadType = WDeployment | WStatefulSet | WJob

datatype Protocol = TCP | UDP

record KeyRef =
  ref_name :: string
  ref_key :: string

record ValueFrom =
  secretKeyRef :: "KeyRef option"
  configMapKeyRef :: "KeyRef option"

record EnvVar =
  ev_name :: string
  ev_value :: "string option"
  ev_valueFrom :: "ValueFrom option"

record ServicePort =
  sp_name :: string
  sp_port :: int
  sp_targetPort :: int
  sp_protocol :: Protocol

datatype validated_state = VSuccess | VError | VDefault

text \<open>The state hooks of \<open>ImportAgentPage\<close>.\<close>

record ImportAgentPage =
  deploymentMethod :: DeploymentMethod
  namespace :: string
  name :: string
  protocol :: string
  framework :: string
  gitUrl :: string
  gitBranch :: string
  gitPath :: string
  selectedExample :: string
  startCommand :: string
  showStartCommand :: bool
  registryType :: string
  registryNamespace :: string
  registrySecret :: string
  buildStrategy :: string
  dockerfile :: string
  buildTimeout :: string
  buildArgs :: "string list"
  containerImage :: string
  imageTag :: string
  imagePullSecret :: string
  servicePorts :: "ServicePort list"
  envVars :: "EnvVar list"
  showEnvVars :: bool
  workloadType :: WorkloadType
  createHttpRoute :: bool
  authBridgeEnabled :: bool
  spireEnabled :: bool
  validated :: "string \<rightharpoonup> validated_state"

text \<open>
  \<open>handleImportEnvVars\<close>: the names already present are collected in a \<open>Set\<close>, the
  imported entries whose name is in it are dropped, the rest is appended.
\<close>

definition handleImportEnvVars :: "ImportAgentPage \<Rightarrow> EnvVar list \<Rightarrow> ImportAgentPage" where
  "handleImportEnvVars p importedVars =
     (let existingNames = set (map ev_name (envVars p));
          newVars = filter (\<lambda>v. ev_name v \<notin> existingNames) importedVars
      in p\<lparr>envVars := envVars p @ newVars, showEnvVars := True\<rparr>)"

subsection \<open>String helpers of the form\<close>

text \<open>
  \<open>s.split(sep)\<close> for a one-character separator: the pieces between the separators,
  empty pieces included; the result is never empty.
\<close>

fun split_on :: "char \<Rightarrow> string \<Rightarrow> string list" where
  "split_on sep [] = [[]]"
| "split_on sep (c # cs) =
     (if c = sep then [] # split_on sep cs
      else (case split_on sep cs of
              [] \<Rightarrow> [[c]]
            | p # ps \<Rightarrow> (c # p) # ps))"

text \<open>\<open>parts[parts.length - 1]\<close> and \<open>parts[0]\<close>; \<open>undefined\<close> on an empty array.\<close>

definition last_part :: "string list \<Rightarrow> string option" where
  "last_part parts = (if parts = [] then None else Some (last parts))"

definition first_part :: "string list \<Rightarrow> string option" where
  "first_part parts = (case parts of [] \<Rightarrow> None | p # _ \<Rightarrow> Some p)"

text \<open>\<open>.replace(/_/g, '-')\<close>\<close>

definition replace_underscores :: "string \<Rightarrow> string" where
  "replace_underscores s = map (\<lambda>c. if c = CHR ''_'' then CHR ''-'' else c) s"

text \<open>
  \<open>.toLowerCase()\<close> on code units below 256: the ASCII capitals and the Latin-1
  capitals (0xC0 to 0xDE without the multiplication sign 0xD7) move up by 32.
\<close>

definition toLowerCase_char :: "char \<Rightarrow> char" where
  "toLowerCase_char c =
     (let n = (of_char c :: nat)
      in if (65 \<le> n \<and> n \<le> 90) \<or> (192 \<le> n \<and> n \<le> 222 \<and> n \<noteq> 215)
         then char_of (n + 32) else c)"

definition toLowerCase :: "string \<Rightarrow> string" where
  "toLowerCase s = map toLowerCase_char s"

text \<open>
  \<open>.trim()\<close>: the white space and line terminators of JavaScript below 256 (tab, line
  feed, vertical tab, form feed, carriage return, space, no-break space) are removed at
  both ends.
\<close>

definition is_js_space :: "char \<Rightarrow> bool" where
  "is_js_space c = ((of_char c :: nat) \<in> {9, 10, 11, 12, 13, 32, 160})"

definition trim :: "string \<Rightarrow> string" where
  "trim s = rev (dropWhile is_js_space (rev (dropWhile is_js_space s)))"

text \<open>
  The test \<open>/^[a-z0-9][a-z0-9-]*[a-z0-9]$|^[a-z0-9]$/.test(s)\<close>.  The character
  classes first, then the two alternatives; without the \<open>m\<close> flag \<open>^\<close> and \<open>$\<close> match
  at the two ends of the string only.
\<close>

definition is_lower_alnum :: "char \<Rightarrow> bool" where
  "is_lower_alnum c =
     (let n = (of_char c :: nat) in (97 \<le> n \<and> n \<le> 122) \<or> (48 \<le> n \<and> n \<le> 57))"

definition is_lower_alnum_dash :: "char \<Rightarrow> bool" where
  "is_lower_alnum_dash c = (is_lower_alnum c \<or> c = CHR ''-'')"

fun name_regex_test :: "string \<Rightarrow> bool" where
  "name_regex_test [] = False"
| "name_regex_test [c] = is_lower_alnum c"
| "name_regex_test (c # cs) =
     (is_lower_alnum c \<and> list_all is_lower_alnum_dash (butlast cs) \<and> is_lower_alnum (last cs))"

subsection \<open>Validation and submission\<close>

text \<open>\<open>getNameFromPath\<close>\<close>

definition getNameFromPath :: "ImportAgentPage \<Rightarrow> string" where
  "getNameFromPath p =
     (if deploymentMethod p = DM_image then
        (let parts = split_on CHR ''/'' (containerImage p);
             imageName = or_else (first_part (split_on CHR '':'' (or_else (last_part parts) []))) []
         in toLowerCase (replace_underscores imageName))
      else
        (let path = (if gitPath p \<noteq> [] then gitPath p else selectedExample p)
         in if path = [] then []
            else (let parts = split_on CHR ''/'' path
                  in toLowerCase (replace_underscores (or_else (last_part parts) [])))))"

text \<open>\<open>const finalName = name || getNameFromPath()\<close>\<close>

definition finalName :: "ImportAgentPage \<Rightarrow> string" where
  "finalName p = (if name p \<noteq> [] then name p else getNameFromPath p)"

text \<open>
  \<open>validateForm\<close>: the fields are checked in the order of the source, \<open>newValidated\<close>
  and \<open>isValid\<close> are threaded through, and the page gets \<open>setValidated(newValidated)\<close>.
\<close>

definition validate_name ::
  "ImportAgentPage \<Rightarrow> (string \<rightharpoonup> validated_state) \<times> bool \<Rightarrow> (string \<rightharpoonup> validated_state) \<times> bool" where
  "validate_name p acc =
     (case acc of (newValidated, isValid) \<Rightarrow>
        if finalName p = [] then (newValidated(''name'' \<mapsto> VError), False)
        else if \<not> name_regex_test (finalName p) then (newValidated(''name'' \<mapsto> VError), False)
        else (newValidated(''name'' \<mapsto> VSuccess), isValid))"

definition validate_source ::
  "ImportAgentPage \<Rightarrow> (string \<rightharpoonup> validated_state) \<times> bool \<Rightarrow> (string \<rightharpoonup> validated_state) \<times> bool" where
  "validate_source p acc =
     (let acc1 = (case acc of (newValidated, isValid) \<Rightarrow>
                    if gitUrl p = [] then (newValidated(''gitUrl'' \<mapsto> VError), False)
                    else (newValidated(''gitUrl'' \<mapsto> VSuccess), isValid));
          acc2 = (case acc1 of (newValidated, isValid) \<Rightarrow>
                    if gitPath p = [] \<and> selectedExample p = []
                    then (newValidated(''gitPath'' \<mapsto> VError), False)
                    else (newValidated(''gitPath'' \<mapsto> VSuccess), isValid))
      in (case acc2 of (newValidated, isValid) \<Rightarrow>
            if registryType p \<noteq> ''local'' \<and> registryNamespace p = []
            then (newValidated(''registryNamespace'' \<mapsto> VError), False)
            else (newValidated, isValid)))"

definition validate_image ::
  "ImportAgentPage \<Rightarrow> (string \<rightharpoonup> validated_state) \<times> bool \<Rightarrow> (string \<rightharpoonup> validated_state) \<times> bool" where
  "validate_image p acc =
     (case acc of (newValidated, isValid) \<Rightarrow>
        if containerImage p = [] then (newValidated(''containerImage'' \<mapsto> VError), False)
        else (newValidated(''containerImage'' \<mapsto> VSuccess), isValid))"

definition validateForm :: "ImportAgentPage \<Rightarrow> ImportAgentPage \<times> bool" where
  "validateForm p =
     (let acc = validate_name p (Map.empty, True);
          acc' = (if deploymentMethod p = DM_source then validate_source p acc
                  else validate_image p acc)
      in (p\<lparr>validated := fst acc'\<rparr>, snd acc'))"

text \<open>\<open>REGISTRY_OPTIONS\<close> (value, label, url) and \<open>getRegistryUrl\<close>.\<close>

definition REGISTRY_OPTIONS :: "(string \<times> string \<times> string) list" where
  "REGISTRY_OPTIONS =
     [(''local'', ''Local Registry (In-Cluster)'', ''registry.cr-system.svc.cluster.local:5000''),
      (''quay'', ''Quay.io'', ''quay.io''),
      (''dockerhub'', ''Docker Hub'', ''docker.io''),
      (''github'', ''GitHub Container Registry'', ''ghcr.io'')]"

definition getRegistryUrl :: "ImportAgentPage \<Rightarrow> string" where
  "getRegistryUrl p =
     (case find (\<lambda>r. fst r = registryType p) REGISTRY_OPTIONS of
        None \<Rightarrow> []
      | Some (_, _, url) \<Rightarrow>
          if registryType p = ''local'' then url
          else if registryNamespace p \<noteq> [] then url @ ''/'' @ registryNamespace p
          else url)"

record ShipwrightBuildConfig =
  sw_buildStrategy :: string
  sw_dockerfile :: string
  sw_buildTimeout :: string
  sw_buildArgs :: "string list"

text \<open>The argument of \<open>agentService.create\<close>; an absent or \<open>undefined\<close> key is \<open>None\<close>.\<close>

record create_request =
  cr_name :: string
  cr_namespace :: string
  cr_gitUrl :: string
  cr_gitPath :: string
  cr_gitBranch :: string
  cr_imageTag :: string
  cr_protocol :: string
  cr_framework :: string
  cr_envVars :: "EnvVar list"
  cr_workloadType :: WorkloadType
  cr_deploymentMethod :: DeploymentMethod
  cr_registryUrl :: "string option"
  cr_registrySecret :: "string option"
  cr_startCommand :: "string option"
  cr_containerImage :: "string option"
  cr_imagePullSecret :: "string option"
  cr_servicePorts :: "ServicePort list"
  cr_createHttpRoute :: bool
  cr_authBridgeEnabled :: bool
  cr_spireEnabled :: bool
  cr_shipwrightConfig :: "ShipwrightBuildConfig option"

text \<open>\<open>envVars.filter((ev) => ev.name && (ev.value || ev.valueFrom))\<close>\<close>

definition submitted_envVars :: "ImportAgentPage \<Rightarrow> EnvVar list" where
  "submitted_envVars p =
     filter (\<lambda>ev. ev_name ev \<noteq> [] \<and> (truthy (ev_value ev) \<or> ev_valueFrom ev \<noteq> None)) (envVars p)"

text \<open>
  \<open>handleSubmit\<close>: the page after \<open>validateForm\<close>, and the argument of
  \<open>createMutation.mutate\<close> when it is called (\<open>None\<close> when the handler returns early).
\<close>

definition handleSubmit :: "ImportAgentPage \<Rightarrow> ImportAgentPage \<times> create_request option" where
  "handleSubmit p =
     (case validateForm p of (p', ok) \<Rightarrow>
        if \<not> ok then (p', None)
        else if deploymentMethod p = DM_source then
          (let finalPath = (if gitPath p \<noteq> [] then gitPath p else selectedExample p);
               shipwrightConfig =
                 \<lparr>sw_buildStrategy = buildStrategy p, sw_dockerfile = dockerfile p,
                  sw_buildTimeout = buildTimeout p,
                  sw_buildArgs = filter (\<lambda>arg. trim arg \<noteq> []) (buildArgs p)\<rparr>
           in (p', Some
             \<lparr>cr_name = finalName p, cr_namespace = namespace p, cr_gitUrl = gitUrl p,
              cr_gitPath = finalPath, cr_gitBranch = gitBranch p, cr_imageTag = ''v0.0.1'',
              cr_protocol = protocol p, cr_framework = framework p,
              cr_envVars = submitted_envVars p, cr_workloadType = workloadType p,
              cr_deploymentMethod = DM_source,
              cr_registryUrl = Some (getRegistryUrl p),
              cr_registrySecret =
                (if registryType p \<noteq> ''local'' then Some (registrySecret p) else None),
              cr_startCommand = (if showStartCommand p then Some (startCommand p) else None),
              cr_containerImage = None, cr_imagePullSecret = None,
              cr_servicePorts = servicePorts p, cr_createHttpRoute = createHttpRoute p,
              cr_authBridgeEnabled = authBridgeEnabled p, cr_spireEnabled = spireEnabled p,
              cr_shipwrightConfig = Some shipwrightConfig\<rparr>))
        else
          (let fullImage = (if imageTag p \<noteq> [] then containerImage p @ '':'' @ imageTag p
                            else containerImage p)
           in (p', Some
             \<lparr>cr_name = finalName p, cr_namespace = namespace p, cr_gitUrl = [],
              cr_gitPath = [], cr_gitBranch = [], cr_imageTag = imageTag p,
              cr_protocol = protocol p, cr_framework = framework p,
              cr_envVars = submitted_envVars p, cr_workloadType = workloadType p,
              cr_deploymentMethod = DM_image,
              cr_registryUrl = None, cr_registrySecret = None, cr_startCommand = None,
              cr_containerImage = Some fullImage,
              cr_imagePullSecret =
                (if imagePullSecret p \<noteq> [] then Some (imagePullSecret p) else None),
              cr_servicePorts = servicePorts p, cr_createHttpRoute = createHttpRoute p,
              cr_authBridgeEnabled = authBridgeEnabled p, cr_spireEnabled = spireEnabled p,
              cr_shipwrightConfig = None\<rparr>)))"

text \<open>The page as the state hooks initialise it.\<close>

definition initial_page :: ImportAgentPage where
  "initial_page =
     \<lparr>deploymentMethod = DM_source, namespace = ''team1'', name = [], protocol = ''a2a'',
      framework = ''LangGraph'', gitUrl = ''https://github.com/kagenti/agent-examples'',
      gitBranch = ''main'', gitPath = [], selectedExample = [],
      startCommand = ''python main.py'', showStartCommand = False,
      registryType = ''local'', registryNamespace = [], registrySecret = [],
      buildStrategy = ''buildah-insecure-push'', dockerfile = ''Dockerfile'',
      buildTimeout = ''15m'', buildArgs = [],
      containerImage = [], imageTag = ''latest'', imagePullSecret = [],
      servicePorts = [\<lparr>sp_name = ''http'', sp_port = 8080, sp_targetPort = 8000, sp_protocol = TCP\<rparr>],
      envVars = [], showEnvVars = False, workloadType = WDeployment,
      createHttpRoute = False, authBridgeEnabled = True, spireEnabled = False,
      validated = Map.empty\<rparr>"

text \<open>\<open>addServicePort\<close> and \<open>addEnvVar\<close>, the handlers of the two "add" buttons.\<close>

definition addServicePort :: "ImportAgentPage \<Rightarrow> ImportAgentPage" where
  "addServicePort p =
     p\<lparr>servicePorts := servicePorts p @
         [\<lparr>sp_name = ''http'', sp_port = 8080, sp_targetPort = 8000, sp_protocol = TCP\<rparr>]\<rparr>"

definition addEnvVar :: "ImportAgentPage \<Rightarrow> ImportAgentPage" where
  "addEnvVar p =
     p\<lparr>envVars := envVars p @ [\<lparr>ev_name = [], ev_value = Some [], ev_valueFrom = None\<rparr>]\<rparr>"

text \<open>
  A page filled in by hand: a name, a path, the default port added a second time, and
  the same variable name typed twice.
\<close>

definition page_with_duplicates :: ImportAgentPage where
  "page_with_duplicates =
     addServicePort (initial_page\<lparr>name := ''my-agent'', gitPath := ''a2a/my_agent'',
       envVars := [\<lparr>ev_name = ''KEY'', ev_value = Some ''1'', ev_valueFrom = None\<rparr>,
                   \<lparr>ev_name = ''KEY'', ev_value = Some ''2'', ev_valueFrom = None\<rparr>]\<rparr>)"

section \<open>The build-and-deploy script of the weather tool\<close>

subsection \<open>Shell values\<close>

text \<open>A number printed in decimal, as \<open>$((...))\<close>, \<open>${ELAPSED}\<close> and \<open>date +%s\<close> do.\<close>

definition digit_char :: "nat \<Rightarrow> char" where
  "digit_char d = char_of (48 + d)"

function show_nat :: "nat \<Rightarrow> string" where
  "show_nat n = (if n < 10 then [digit_char n] else show_nat (n div 10) @ [digit_char (n mod 10)])"
  by pat_completeness auto
termination
  by (relation "measure id") auto

declare show_nat.simps [simp del]

text \<open>
  The variables of the script.  \<open>${VAR:-default}\<close> is \<open>or_else\<close> on the environment,
  which is the environment after \<open>lib/env-detect.sh\<close> was sourced, when that file
  exists; the model of the script starts after this preamble, at the banner.
  \<open>TOOL_NAME\<close> is a constant of the script.
\<close>

record vars =
  NAMESPACE :: string
  TOOL_NAME :: string
  GIT_URL :: string
  GIT_BRANCH :: string
  GIT_PATH :: string
  IMAGE_TAG :: string
  REGISTRY :: string

definition script_vars :: "(string \<rightharpoonup> string) \<Rightarrow> vars" where
  "script_vars env =
     (let ns = or_else (env ''NAMESPACE'') ''team1''
      in \<lparr>NAMESPACE = ns,
          TOOL_NAME = ''weather-tool'',
          GIT_URL = or_else (env ''GIT_URL'') ''https://github.com/kagenti/agent-examples'',
          GIT_BRANCH = or_else (env ''GIT_BRANCH'') ''main'',
          GIT_PATH = or_else (env ''GIT_PATH'') ''mcp/weather_tool'',
          IMAGE_TAG = or_else (env ''IMAGE_TAG'') ''v0.0.1'',
          REGISTRY =
            (if or_else (env ''IS_OPENSHIFT'') ''false'' = ''true''
             then or_else (env ''REGISTRY'')
                    (''image-registry.openshift-image-registry.svc:5000/'' @ ns)
             else or_else (env ''REGISTRY'') ''registry.cr-system.svc.cluster.local:5000'')\<rparr>)"

subsection \<open>Manifests\<close>

text \<open>
  The documents piped into \<open>kubectl apply -f -\<close>: kind, name, namespace, labels and
  the fields of the spec that name other resources or the image.  Annotations and the
  container's resources and security settings are constants of the script and are left
  out.
\<close>

datatype resource_kind = Build | BuildRun | Deployment | Service

datatype manifest_spec =
  BuildSpec string string string string string
| BuildRunSpec string
| DeploymentSpec nat "(string \<times> string) list" "(string \<times> string) list" string nat
| ServiceSpec "(string \<times> string) list" nat nat

record manifest =
  m_kind :: resource_kind
  m_name :: string
  m_namespace :: string
  m_labels :: "(string \<times> string) list"
  m_spec :: manifest_spec

text \<open>Step 1: git url, revision, context directory, strategy and output image.\<close>

definition build_manifest :: "vars \<Rightarrow> manifest" where
  "build_manifest v =
     \<lparr>m_kind = Build, m_name = TOOL_NAME v, m_namespace = NAMESPACE v,
      m_labels = [(''kagenti.io/type'', ''tool''), (''kagenti.io/managed-by'', ''shipwright'')],
      m_spec = BuildSpec (GIT_URL v) (GIT_BRANCH v) (GIT_PATH v) ''buildah-insecure''
                 (REGISTRY v @ ''/'' @ TOOL_NAME v @ '':'' @ IMAGE_TAG v)\<rparr>"

text \<open>Step 2: \<open>BUILDRUN_NAME="${TOOL_NAME}-run-$(date +%s)"\<close>, given what \<open>date +%s\<close> printed.\<close>

definition BUILDRUN_NAME :: "vars \<Rightarrow> nat \<Rightarrow> string" where
  "BUILDRUN_NAME v epoch_seconds = TOOL_NAME v @ ''-run-'' @ show_nat epoch_seconds"

definition buildrun_manifest :: "vars \<Rightarrow> string \<Rightarrow> manifest" where
  "buildrun_manifest v brn =
     \<lparr>m_kind = BuildRun, m_name = brn, m_namespace = NAMESPACE v,
      m_labels = [(''kagenti.io/type'', ''tool''), (''kagenti.io/build-name'', TOOL_NAME v)],
      m_spec = BuildRunSpec (TOOL_NAME v)\<rparr>"

text \<open>Step 5: replicas, selector, pod labels, image and container port.\<close>

definition deployment_manifest :: "vars \<Rightarrow> string \<Rightarrow> manifest" where
  "deployment_manifest v OUTPUT_IMAGE =
     \<lparr>m_kind = Deployment, m_name = TOOL_NAME v, m_namespace = NAMESPACE v,
      m_labels = [(''kagenti.io/type'', ''tool''), (''protocol.kagenti.io/mcp'', []),
                  (''kagenti.io/transport'', ''streamable_http''),
                  (''kagenti.io/built-by'', ''shipwright''),
                  (''kagenti.io/build-name'', TOOL_NAME v),
                  (''app.kubernetes.io/name'', TOOL_NAME v)],
      m_spec = DeploymentSpec 1
                 [(''kagenti.io/type'', ''tool''), (''app.kubernetes.io/name'', TOOL_NAME v)]
                 [(''kagenti.io/type'', ''tool''), (''protocol.kagenti.io/mcp'', []),
                  (''kagenti.io/transport'', ''streamable_http''),
                  (''app.kubernetes.io/name'', TOOL_NAME v)]
                 OUTPUT_IMAGE 8000\<rparr>"

text \<open>Step 5b: selector, port and target port.\<close>

definition service_manifest :: "vars \<Rightarrow> manifest" where
  "service_manifest v =
     \<lparr>m_kind = Service, m_name = TOOL_NAME v @ ''-mcp'', m_namespace = NAMESPACE v,
      m_labels = [(''kagenti.io/type'', ''tool''), (''protocol.kagenti.io/mcp'', []),
                  (''app.kubernetes.io/name'', TOOL_NAME v)],
      m_spec = ServiceSpec
                 [(''kagenti.io/type'', ''tool''), (''app.kubernetes.io/name'', TOOL_NAME v)]
                 8000 8000\<rparr>"

text \<open>The port a Service manifest exposes.\<close>

definition service_port :: "manifest \<Rightarrow> nat option" where
  "service_port m =
     (case m_spec m of ServiceSpec selector port targetPort \<Rightarrow> Some port | _ \<Rightarrow> None)"

subsection \<open>The cluster and the clock, as the script observes them\<close>

text \<open>
  Everything the script reads from outside: the clock (nanoseconds since the epoch; \<open>date
  +%s\<close> prints its whole seconds), the exit status of each \<open>kubectl\<close> command that runs
  under \<open>set -e\<close>, what the two reads of the \<open>Succeeded\<close> condition return at the poll
  made after \<open>ELAPSED\<close> seconds (the empty string when \<open>kubectl\<close> fails, by \<open>|| echo
  ""\<close>), and the output fields of the BuildRun.
\<close>

record world =
  clock_ns :: nat
  apply_rc :: "resource_kind \<Rightarrow> nat"
  buildrun_status :: "nat \<Rightarrow> string"
  buildrun_reason :: "nat \<Rightarrow> string"
  buildrun_yaml_rc :: nat
  output_image :: "nat \<times> string"
  output_digest :: "nat \<times> string"
  wait_rc :: nat
  deployment_yaml_rc :: nat

definition date_epoch_seconds :: "world \<Rightarrow> nat" where
  "date_epoch_seconds w = clock_ns w div 1000000000"

subsection \<open>Commands and their trace\<close>

datatype event =
  Echo string
| KubectlApply manifest nat
| KubectlGetBuildRun string string string
| KubectlGetBuildRunYaml string string
| Sleep nat
| KubectlWaitDeployment string string
| KubectlGetDeploymentYaml string string

text \<open>
  A step is the trace of a group of commands and, when the script ends there, its exit
  status.  \<open>errexit\<close> is one command under \<open>set -e\<close>: a non-zero status ends the
  script with that status.  \<open>exec\<close> runs steps in sequence up to the first that exits,
  and is a step again; a script that falls off its end has status 0.
\<close>

type_synonym step = "event list \<times> nat option"

definition echo :: "string \<Rightarrow> step" where
  "echo s = ([Echo s], None)"

definition errexit :: "event \<Rightarrow> nat \<Rightarrow> step" where
  "errexit e rc = ([e], if rc = 0 then None else Some rc)"

fun exec :: "step list \<Rightarrow> step" where
  "exec [] = ([], None)"
| "exec ((evs, Some rc) # rest) = (evs, Some rc)"
| "exec ((evs, None) # rest) = (case exec rest of (evs', r) \<Rightarrow> (evs @ evs', r))"

definition exit_status :: "nat option \<Rightarrow> nat" where
  "exit_status r = (case r of None \<Rightarrow> 0 | Some rc \<Rightarrow> rc)"

subsection \<open>Step 3: waiting for the BuildRun\<close>

definition TIMEOUT :: nat where
  "TIMEOUT = 600"

definition POLL_INTERVAL :: nat where
  "POLL_INTERVAL = 10"

text \<open>
  How the \<open>while\<close> loop is left: by \<open>break\<close>, by \<open>exit\<close> with a status, or because its
  condition is false; \<open>ELAPSED\<close> at that moment is kept for the test after the loop.
\<close>

datatype loop_exit = Break nat | Exit nat | Done nat

function poll_loop :: "world \<Rightarrow> string \<Rightarrow> string \<Rightarrow> nat \<Rightarrow> event list \<times> loop_exit" where
  "poll_loop w brn ns ELAPSED =
     (if ELAPSED < TIMEOUT then
        (if buildrun_status w ELAPSED = ''True'' then
           ([KubectlGetBuildRun brn ns ''status'', KubectlGetBuildRun brn ns ''reason'',
             Echo ''BuildRun succeeded!''],
            Break ELAPSED)
         else if buildrun_status w ELAPSED = ''False'' then
           ([KubectlGetBuildRun brn ns ''status'', KubectlGetBuildRun brn ns ''reason'',
             Echo (''BuildRun failed with reason: '' @ buildrun_reason w ELAPSED),
             KubectlGetBuildRunYaml brn ns],
            Exit (if buildrun_yaml_rc w = 0 then 1 else buildrun_yaml_rc w))
         else
           (case poll_loop w brn ns (ELAPSED + POLL_INTERVAL) of (evs, out) \<Rightarrow>
              ([KubectlGetBuildRun brn ns ''status'', KubectlGetBuildRun brn ns ''reason'',
                Echo (''BuildRun status: '' @ or_else (Some (buildrun_reason w ELAPSED)) ''Pending''
                      @ ''... ('' @ show_nat ELAPSED @ ''s elapsed)''),
                Sleep POLL_INTERVAL] @ evs,
               out)))
      else ([], Done ELAPSED))"
  by pat_completeness auto
termination
  by (relation "measure (\<lambda>(w, brn, ns, ELAPSED). TIMEOUT - ELAPSED)")
     (auto simp: TIMEOUT_def POLL_INTERVAL_def)

declare poll_loop.simps [simp del]

text \<open>
  The loop started at 0, followed by \<open>if [ $ELAPSED -ge $TIMEOUT ]\<close> with its
  \<open>exit 1\<close>.
\<close>

definition wait_for_buildrun :: "world \<Rightarrow> string \<Rightarrow> string \<Rightarrow> step" where
  "wait_for_buildrun w brn ns =
     (case poll_loop w brn ns 0 of
        (evs, Exit rc) \<Rightarrow> (evs, Some rc)
      | (evs, Break ELAPSED) \<Rightarrow>
          if ELAPSED \<ge> TIMEOUT
          then (evs @ [Echo ''Timeout waiting for BuildRun to complete''], Some 1)
          else (evs, None)
      | (evs, Done ELAPSED) \<Rightarrow>
          if ELAPSED \<ge> TIMEOUT
          then (evs @ [Echo ''Timeout waiting for BuildRun to complete''], Some 1)
          else (evs, None))"

subsection \<open>The script\<close>

text \<open>Lines 31 to 96: the banner, step 1 and step 2.\<close>

definition steps_build :: "vars \<Rightarrow> world \<Rightarrow> step list" where
  "steps_build v w =
     [echo ''=== Deploying Weather Tool via Shipwright Build ==='',
      echo (''Namespace: '' @ NAMESPACE v),
      echo (''Git URL: '' @ GIT_URL v),
      echo (''Git Branch: '' @ GIT_BRANCH v),
      echo (''Git Path: '' @ GIT_PATH v),
      echo (''Registry: '' @ REGISTRY v),
      echo (''Image Tag: '' @ IMAGE_TAG v),
      echo [],
      echo ''Step 1: Creating Shipwright Build resource...'',
      errexit (KubectlApply (build_manifest v) (apply_rc w Build)) (apply_rc w Build),
      echo ''Build resource created.'',
      echo [],
      echo ''Step 2: Creating BuildRun to start container image build...'',
      errexit (KubectlApply (buildrun_manifest v (BUILDRUN_NAME v (date_epoch_seconds w)))
                 (apply_rc w BuildRun))
              (apply_rc w BuildRun),
      echo (''BuildRun '' @ [CHR 0x27] @ BUILDRUN_NAME v (date_epoch_seconds w) @ [CHR 0x27]
            @ '' created.'')]"

text \<open>Lines 98 to 129: step 3.\<close>

definition steps_wait :: "vars \<Rightarrow> world \<Rightarrow> step list" where
  "steps_wait v w =
     [echo [],
      echo ''Step 3: Waiting for BuildRun to complete...'',
      echo ''This may take several minutes depending on the build complexity.'',
      wait_for_buildrun w (BUILDRUN_NAME v (date_epoch_seconds w)) (NAMESPACE v)]"

text \<open>
  Lines 131 to 249: steps 4, 5, 5b and 6.  The two assignments of step 4 run \<open>kubectl\<close>
  in a command substitution, whose status is the status of the assignment.  In step 6
  the group after \<open>||\<close> runs when \<open>kubectl wait\<close> fails, and its last command is
  again under \<open>set -e\<close>.
\<close>

definition steps_deploy :: "vars \<Rightarrow> world \<Rightarrow> step list" where
  "steps_deploy v w =
     [echo [],
      echo ''Step 4: Retrieving output image...'',
      errexit (KubectlGetBuildRun (BUILDRUN_NAME v (date_epoch_seconds w)) (NAMESPACE v)
                 ''output.image'') (fst (output_image w)),
      errexit (KubectlGetBuildRun (BUILDRUN_NAME v (date_epoch_seconds w)) (NAMESPACE v)
                 ''output.digest'') (fst (output_digest w)),
      echo (''Output Image: '' @ snd (output_image w)),
      echo (''Output Digest: '' @ snd (output_digest w)),
      echo [],
      echo ''Step 5: Creating Deployment resource...'',
      errexit (KubectlApply (deployment_manifest v (snd (output_image w))) (apply_rc w Deployment))
              (apply_rc w Deployment),
      echo ''Creating Service...'',
      errexit (KubectlApply (service_manifest v) (apply_rc w Service)) (apply_rc w Service),
      echo (''Deployment '' @ [CHR 0x27] @ TOOL_NAME v @ [CHR 0x27] @ '' and Service ''
            @ [CHR 0x27] @ TOOL_NAME v @ ''-mcp'' @ [CHR 0x27] @ '' created.''),
      echo [],
      echo ''Step 6: Waiting for Deployment to be ready...'',
      ([KubectlWaitDeployment (TOOL_NAME v) (NAMESPACE v)], None),
      (if wait_rc w = 0 then ([], None)
       else ([Echo ''Warning: Deployment not ready within timeout, checking status...'',
              KubectlGetDeploymentYaml (TOOL_NAME v) (NAMESPACE v)],
             if deployment_yaml_rc w = 0 then None else Some (deployment_yaml_rc w))),
      echo [],
      echo ''=== Weather Tool Deployment Complete ==='',
      echo (''Tool Name: '' @ TOOL_NAME v),
      echo (''Namespace: '' @ NAMESPACE v),
      echo (''Image: '' @ snd (output_image w)),
      echo (''Service: '' @ TOOL_NAME v @ ''-mcp''),
      echo [],
      echo ''To verify the tool is running:'',
      echo (''  kubectl get deployment '' @ TOOL_NAME v @ '' -n '' @ NAMESPACE v),
      echo (''  kubectl get service '' @ TOOL_NAME v @ ''-mcp -n '' @ NAMESPACE v),
      echo (''  kubectl get pods -l app.kubernetes.io/name='' @ TOOL_NAME v @ '' -n ''
            @ NAMESPACE v)]"

definition script :: "vars \<Rightarrow> world \<Rightarrow> step list" where
  "script v w = steps_build v w @ steps_wait v w @ steps_deploy v w"

text \<open>A run of the script: its trace and its exit status.\<close>

definition run :: "(string \<rightharpoonup> string) \<Rightarrow> world \<Rightarrow> event list \<times> nat" where
  "run env w = (case exec (script (script_vars env) w) of (evs, r) \<Rightarrow> (evs, exit_status r))"

text \<open>
  The kinds of the resources whose \<open>kubectl apply\<close> was run, and of those whose
  \<open>kubectl apply\<close> succeeded, in the order of the trace.
\<close>

fun applied_kind :: "event \<Rightarrow> resource_kind option" where
  "applied_kind (KubectlApply m rc) = Some (m_kind m)"
| "applied_kind _ = None"

fun created_kind :: "event \<Rightarrow> resource_kind option" where
  "created_kind (KubectlApply m rc) = (if rc = 0 then Some (m_kind m) else None)"
| "created_kind _ = None"

definition applied_kinds :: "event list \<Rightarrow> resource_kind list" where
  "applied_kinds evs = List.map_filter applied_kind evs"

definition created_kinds :: "event list \<Rightarrow> resource_kind list" where
  "created_kinds evs = List.map_filter created_kind evs"

text \<open>
  The reads of the \<open>Succeeded\<close> status of the BuildRun (the polls), their number in a
  trace, and the part of a trace from the \<open>kubectl apply\<close> of the BuildRun up to, and
  without, that of the Deployment.
\<close>

fun is_status_poll :: "event \<Rightarrow> bool" where
  "is_status_poll (KubectlGetBuildRun brn ns field) = (field = ''status'')"
| "is_status_poll _ = False"

definition status_polls :: "event list \<Rightarrow> nat" where
  "status_polls evs = length (filter is_status_poll evs)"

definition between_buildrun_and_deployment :: "event list \<Rightarrow> event list" where
  "between_buildrun_and_deployment evs =
     takeWhile (\<lambda>e. applied_kind e \<noteq> Some Deployment)
       (dropWhile (\<lambda>e. applied_kind e \<noteq> Some BuildRun) evs)"

text \<open>
  The step of the script an event belongs to, after the script's own comments
  (\<open># Step 1\<close> to \<open># Step 6\<close>); the \<open>echo\<close> lines belong to none.
\<close>

fun step_number :: "event \<Rightarrow> nat option" where
  "step_number (Echo s) = None"
| "step_number (KubectlApply m rc) =
     (case m_kind m of Build \<Rightarrow> Some 1 | BuildRun \<Rightarrow> Some 2 | Deployment \<Rightarrow> Some 5
      | Service \<Rightarrow> Some 5)"
| "step_number (KubectlGetBuildRun brn ns field) =
     (if field = ''status'' \<or> field = ''reason'' then Some 3 else Some 4)"
| "step_number (KubectlGetBuildRunYaml brn ns) = Some 3"
| "step_number (Sleep n) = Some 3"
| "step_number (KubectlWaitDeployment n ns) = Some 6"
| "step_number (KubectlGetDeploymentYaml n ns) = Some 6"

subsection \<open>Three clusters\<close>

text \<open>
  Every command succeeds; the BuildRun has no \<open>Succeeded\<close> condition at the first two
  polls and \<open>Succeeded=True\<close> from the third.
\<close>

definition world_build_succeeds :: world where
  "world_build_succeeds =
     \<lparr>clock_ns = 1700000000250000000, apply_rc = (\<lambda>k. 0),
      buildrun_status = (\<lambda>t. if t < 20 then [] else ''True''),
      buildrun_reason = (\<lambda>t. if t < 20 then [] else ''Succeeded''),
      buildrun_yaml_rc = 0,
      output_image = (0, ''registry.cr-system.svc.cluster.local:5000/weather-tool:v0.0.1''),
      output_digest = (0, ''sha256:0123''),
      wait_rc = 0, deployment_yaml_rc = 0\<rparr>"

text \<open>The same cluster, where the BuildRun reports \<open>Succeeded=False\<close> at the second poll.\<close>

definition world_build_fails :: world where
  "world_build_fails =
     world_build_succeeds
       \<lparr>buildrun_status := (\<lambda>t. if t < 10 then ''Unknown'' else ''False''),
        buildrun_reason := (\<lambda>t. if t < 10 then ''Pending'' else ''BuildFailed'')\<rparr>"

text \<open>The same cluster, where the BuildRun stays \<open>Unknown\<close> for ever.\<close>

definition world_build_hangs :: world where
  "world_build_hangs =
     world_build_succeeds
       \<lparr>buildrun_status := (\<lambda>t. ''Unknown''), buildrun_reason := (\<lambda>t. ''Running'')\<rparr>"

section \<open>Status normalization\<close>














section \<open>Delete confirmation\<close>

text \<open>
  C8.  On the tool catalog, the agent catalog and the tool detail page, the handler
  dispatches a delete call exactly when the typed confirmation text is equal, as a
  string, to the name of the resource; the call then carries that resource's namespace
  and name.  For every other text nothing is dispatched.
\<close>

theorem delete_requires_exact_name:
  "(tool_catalog_handleDeleteConfirm tp = Some c \<longleftrightarrow>
      (\<exists>t. tc_toolToDelete tp = Some t \<and> tc_deleteConfirmText tp = tool_name t \<and>
           c = ToolServiceDelete (Some (tool_namespace t)) (Some (tool_name t))))
   \<and> (agent_catalog_handleDeleteConfirm ap = Some c \<longleftrightarrow>
      (\<exists>a. ac_agentToDelete ap = Some a \<and> ac_deleteConfirmText ap = agent_name a \<and>
           c = AgentServiceDelete (Some (agent_namespace a)) (Some (agent_name a))))
   \<and> (tool_detail_handleDeleteConfirm dp = Some c \<longleftrightarrow>
      (td_name dp = Some (td_deleteConfirmText dp) \<and>
       c = ToolServiceDelete (td_namespace dp) (td_name dp)))"
  by (auto simp: tool_catalog_handleDeleteConfirm_def agent_catalog_handleDeleteConfirm_def
        tool_detail_handleDeleteConfirm_def split: option.splits)

theorem delete_requires_exact_name_witness:
  "tool_catalog_handleDeleteConfirm
     \<lparr>tc_toolToDelete = Some \<lparr>tool_name = ''weather-tool'', tool_namespace = ''team1'',
                              tool_description = [], tool_status = ''Ready''\<rparr>,
      tc_deleteConfirmText = ''weather-tool''\<rparr>
   = Some (ToolServiceDelete (Some ''team1'') (Some ''weather-tool''))
   \<and> tool_catalog_handleDeleteConfirm
     \<lparr>tc_toolToDelete = Some \<lparr>tool_name = ''weather-tool'', tool_namespace = ''team1'',
                              tool_description = [], tool_status = ''Ready''\<rparr>,
      tc_deleteConfirmText = ''weather-tool ''\<rparr>
   \<noteq> Some (ToolServiceDelete (Some ''team1'') (Some ''weather-tool''))"
  using delete_requires_exact_name
    [of "\<lparr>tc_toolToDelete = Some \<lparr>tool_name = ''weather-tool'', tool_namespace = ''team1'',
                              tool_description = [], tool_status = ''Ready''\<rparr>,
      tc_deleteConfirmText = ''weather-tool''\<rparr>"
        "ToolServiceDelete (Some ''team1'') (Some ''weather-tool'')"]
    delete_requires_exact_name
    [of "\<lparr>tc_toolToDelete = Some \<lparr>tool_name = ''weather-tool'', tool_namespace = ''team1'',
                              tool_description = [], tool_status = ''Ready''\<rparr>,
      tc_deleteConfirmText = ''weather-tool ''\<rparr>"
        "ToolServiceDelete (Some ''team1'') (Some ''weather-tool'')"]
  by simp

section \<open>Status polling of the tool detail page\<close>

text \<open>
  C9.  The refetch interval of the tool query depends on the last fetched
  \<open>readyStatus\<close> only: it is \<open>false\<close> (polling stops) exactly when that status is the
  string \<open>Ready\<close>, and 5000 ms for every other status, \<open>Failed\<close> included, as well as
  when there is no data or no status yet.
\<close>

theorem refetchInterval_ready_only:
  "refetchInterval data =
     (if (\<exists>d. data = Some d \<and> readyStatus d = Some ''Ready'') then None else Some 5000)
   \<and> (refetchInterval data = None \<longleftrightarrow> (\<exists>d. data = Some d \<and> readyStatus d = Some ''Ready''))
   \<and> refetchInterval (Some \<lparr>readyStatus = Some ''Failed''\<rparr>) = Some 5000"
  by (auto simp: refetchInterval_def or_else_def Let_def split: option.splits)

theorem refetchInterval_ready_only_witness:
  "refetchInterval (Some \<lparr>readyStatus = Some ''Ready''\<rparr>) = None
   \<and> refetchInterval (Some \<lparr>readyStatus = Some ''Not Ready''\<rparr>) = Some 5000
   \<and> refetchInterval None = Some 5000"
  using refetchInterval_ready_only [of "Some \<lparr>readyStatus = Some ''Ready''\<rparr>"]
    refetchInterval_ready_only [of "Some \<lparr>readyStatus = Some ''Not Ready''\<rparr>"]
    refetchInterval_ready_only [of None]
  by simp

section \<open>Importing environment variables\<close>

lemma handleImportEnvVars_envVars:
  "envVars (handleImportEnvVars p vs) =
     envVars p @ filter (\<lambda>v. ev_name v \<notin> ev_name ` set (envVars p)) vs"
  by (simp add: handleImportEnvVars_def Let_def)

lemma handleImportEnvVars_covers:
  "v \<in> set vs \<Longrightarrow> ev_name v \<in> ev_name ` set (envVars (handleImportEnvVars p vs))"
  by (auto simp: handleImportEnvVars_envVars)

text \<open>
  C10.  Importing environment variables leaves every existing entry in place and
  unchanged: the new list is the old list followed by exactly the imported entries whose
  name is not the name of an existing entry, in their order.  Importing the same entries
  a second time changes nothing.
\<close>

theorem import_env_vars_appends_new_only:
  "envVars (handleImportEnvVars p vs) =
     envVars p @ filter (\<lambda>v. ev_name v \<notin> ev_name ` set (envVars p)) vs
   \<and> take (length (envVars p)) (envVars (handleImportEnvVars p vs)) = envVars p
   \<and> handleImportEnvVars (handleImportEnvVars p vs) vs = handleImportEnvVars p vs"
proof (intro conjI)
  show "envVars (handleImportEnvVars p vs) =
     envVars p @ filter (\<lambda>v. ev_name v \<notin> ev_name ` set (envVars p)) vs"
    by (rule handleImportEnvVars_envVars)
  show "take (length (envVars p)) (envVars (handleImportEnvVars p vs)) = envVars p"
    by (simp add: handleImportEnvVars_envVars)
  have none: "filter (\<lambda>v. ev_name v \<notin> ev_name ` set (envVars (handleImportEnvVars p vs))) vs = []"
    using handleImportEnvVars_covers [of _ vs p] by (simp add: filter_empty_conv)
  have "envVars (handleImportEnvVars (handleImportEnvVars p vs) vs)
        = envVars (handleImportEnvVars p vs)"
    by (subst handleImportEnvVars_envVars) (simp add: none)
  then show "handleImportEnvVars (handleImportEnvVars p vs) vs = handleImportEnvVars p vs"
    by (simp add: handleImportEnvVars_def Let_def)
qed


theorem import_env_vars_appends_new_only_witness:
  "envVars (handleImportEnvVars
      (initial_page\<lparr>envVars := [\<lparr>ev_name = ''KEY'', ev_value = Some ''1'', ev_valueFrom = None\<rparr>]\<rparr>)
      [\<lparr>ev_name = ''KEY'', ev_value = Some ''2'', ev_valueFrom = None\<rparr>,
       \<lparr>ev_name = ''PORT'', ev_value = Some ''8000'', ev_valueFrom = None\<rparr>])
   = [\<lparr>ev_name = ''KEY'', ev_value = Some ''1'', ev_valueFrom = None\<rparr>,
      \<lparr>ev_name = ''PORT'', ev_value = Some ''8000'', ev_valueFrom = None\<rparr>]"
  using import_env_vars_appends_new_only
    [of "initial_page\<lparr>envVars := [\<lparr>ev_name = ''KEY'', ev_value = Some ''1'', ev_valueFrom = None\<rparr>]\<rparr>"
        "[\<lparr>ev_name = ''KEY'', ev_value = Some ''2'', ev_valueFrom = None\<rparr>,
          \<lparr>ev_name = ''PORT'', ev_value = Some ''8000'', ev_valueFrom = None\<rparr>]"]
  by simp

section \<open>The script: sequencing and the poll loop\<close>

lemma exec_single: "exec [s] = s"
  by (cases s; cases "snd s") auto

lemma exec_append: "exec (xs @ ys) = exec [exec xs, exec ys]"
proof (induction xs)
  case Nil
  show ?case by (simp add: exec_single)
next
  case (Cons s xs)
  obtain evs r where s: "s = (evs, r)" by (cases s)
  show ?case
  proof (cases r)
    case None
    with s Cons show ?thesis
      by (cases "exec xs"; cases "exec ys"; cases "snd (exec xs)") (auto split: prod.splits option.splits)
  next
    case (Some rc)
    with s show ?thesis by simp
  qed
qed

lemma exec_continue: "exec ((evs, None) # rest) = apfst ((@) evs) (exec rest)"
  by (simp split: prod.splits)

lemma exec_echo [simp]: "exec (echo s # rest) = apfst ((#) (Echo s)) (exec rest)"
  by (simp add: echo_def split: prod.splits)

lemma exec_errexit [simp]:
  "exec (errexit e rc # rest) = (if rc = 0 then apfst ((#) e) (exec rest) else ([e], Some rc))"
  by (simp add: errexit_def split: prod.splits)

lemma exec_pair: "exec [(e1, r1), (e2, r2)] = (case r1 of None \<Rightarrow> (e1 @ e2, r2) | Some rc \<Rightarrow> (e1, Some rc))"
  by (cases r1; cases r2) auto

lemma poll_loop_no_apply:
  "e \<in> set (fst (poll_loop w brn ns t)) \<Longrightarrow> applied_kind e = None"
proof (induction w brn ns t rule: poll_loop.induct)
  case (1 w brn ns ELAPSED)
  show ?case
  proof (cases "ELAPSED < TIMEOUT \<and> buildrun_status w ELAPSED \<noteq> ''True'' \<and> buildrun_status w ELAPSED \<noteq> ''False''")
    case True
    with 1 show ?thesis
      by (subst (asm) (2) poll_loop.simps) (auto split: prod.splits)
  next
    case False
    with 1(2) show ?thesis
      by (subst (asm) poll_loop.simps) (auto split: if_splits)
  qed
qed

lemma poll_loop_Break:
  "snd (poll_loop w brn ns t) = Break e \<Longrightarrow>
   \<exists>j. e = t + POLL_INTERVAL * j \<and> e < TIMEOUT \<and> buildrun_status w e = ''True''
       \<and> (\<forall>k<j. buildrun_status w (t + POLL_INTERVAL * k) \<noteq> ''True''
                \<and> buildrun_status w (t + POLL_INTERVAL * k) \<noteq> ''False'')"
proof (induction w brn ns t rule: poll_loop.induct)
  case (1 w brn ns ELAPSED)
  show ?case
  proof (cases "ELAPSED < TIMEOUT \<and> buildrun_status w ELAPSED \<noteq> ''True'' \<and> buildrun_status w ELAPSED \<noteq> ''False''")
    case True
    with 1(2) have "snd (poll_loop w brn ns (ELAPSED + POLL_INTERVAL)) = Break e"
      by (subst (asm) poll_loop.simps) (auto split: prod.splits)
    with 1(1) True obtain j where j: "e = ELAPSED + POLL_INTERVAL + POLL_INTERVAL * j"
      "e < TIMEOUT" "buildrun_status w e = ''True''"
      "\<forall>k<j. buildrun_status w (ELAPSED + POLL_INTERVAL + POLL_INTERVAL * k) \<noteq> ''True''
                \<and> buildrun_status w (ELAPSED + POLL_INTERVAL + POLL_INTERVAL * k) \<noteq> ''False''"
      by blast
    have "\<forall>k<Suc j. buildrun_status w (ELAPSED + POLL_INTERVAL * k) \<noteq> ''True''
                \<and> buildrun_status w (ELAPSED + POLL_INTERVAL * k) \<noteq> ''False''"
    proof (intro allI impI)
      fix k assume "k < Suc j"
      show "buildrun_status w (ELAPSED + POLL_INTERVAL * k) \<noteq> ''True''
                \<and> buildrun_status w (ELAPSED + POLL_INTERVAL * k) \<noteq> ''False''"
      proof (cases k)
        case 0 with True show ?thesis by simp
      next
        case (Suc k')
        with \<open>k < Suc j\<close> j(4) have "buildrun_status w (ELAPSED + POLL_INTERVAL + POLL_INTERVAL * k') \<noteq> ''True''
                \<and> buildrun_status w (ELAPSED + POLL_INTERVAL + POLL_INTERVAL * k') \<noteq> ''False''" by simp
        with Suc show ?thesis by (simp add: add.assoc)
      qed
    qed
    with j(1,2,3) show ?thesis
      by (intro exI[of _ "Suc j"]) (simp add: add.assoc)
  next
    case False
    with 1(2) have "e = ELAPSED \<and> ELAPSED < TIMEOUT \<and> buildrun_status w ELAPSED = ''True''"
      by (subst (asm) poll_loop.simps) (auto split: if_splits)
    then show ?thesis by (intro exI[of _ 0]) simp
  qed
qed

lemma poll_loop_Exit:
  "snd (poll_loop w brn ns t) = Exit rc \<Longrightarrow> rc \<noteq> 0"
proof (induction w brn ns t rule: poll_loop.induct)
  case (1 w brn ns ELAPSED)
  show ?case
  proof (cases "ELAPSED < TIMEOUT \<and> buildrun_status w ELAPSED \<noteq> ''True'' \<and> buildrun_status w ELAPSED \<noteq> ''False''")
    case True
    with 1(2) have "snd (poll_loop w brn ns (ELAPSED + POLL_INTERVAL)) = Exit rc"
      by (subst (asm) poll_loop.simps) (auto split: prod.splits)
    with 1(1) True show ?thesis by blast
  next
    case False
    with 1(2) show ?thesis
      by (subst (asm) poll_loop.simps) (auto split: if_splits)
  qed
qed

lemma poll_loop_Done:
  "snd (poll_loop w brn ns t) = Done e \<Longrightarrow> TIMEOUT \<le> e"
proof (induction w brn ns t rule: poll_loop.induct)
  case (1 w brn ns ELAPSED)
  show ?case
  proof (cases "ELAPSED < TIMEOUT \<and> buildrun_status w ELAPSED \<noteq> ''True'' \<and> buildrun_status w ELAPSED \<noteq> ''False''")
    case True
    with 1(2) have "snd (poll_loop w brn ns (ELAPSED + POLL_INTERVAL)) = Done e"
      by (subst (asm) poll_loop.simps) (auto split: prod.splits)
    with 1(1) True show ?thesis by blast
  next
    case False
    with 1(2) show ?thesis
      by (subst (asm) poll_loop.simps) (auto split: if_splits)
  qed
qed

lemma poll_loop_pending:
  "\<forall>k. t + POLL_INTERVAL * k < TIMEOUT \<longrightarrow>
       buildrun_status w (t + POLL_INTERVAL * k) \<noteq> ''True''
       \<and> buildrun_status w (t + POLL_INTERVAL * k) \<noteq> ''False'' \<Longrightarrow>
   \<exists>e. snd (poll_loop w brn ns t) = Done e"
proof (induction w brn ns t rule: poll_loop.induct)
  case (1 w brn ns ELAPSED)
  show ?case
  proof (cases "ELAPSED < TIMEOUT")
    case True
    with 1(2) [rule_format, of 0]
    have p: "buildrun_status w ELAPSED \<noteq> ''True''" "buildrun_status w ELAPSED \<noteq> ''False''"
      by simp_all
    have "\<forall>k. ELAPSED + POLL_INTERVAL + POLL_INTERVAL * k < TIMEOUT \<longrightarrow>
       buildrun_status w (ELAPSED + POLL_INTERVAL + POLL_INTERVAL * k) \<noteq> ''True''
       \<and> buildrun_status w (ELAPSED + POLL_INTERVAL + POLL_INTERVAL * k) \<noteq> ''False''"
    proof (intro allI impI)
      fix k assume "ELAPSED + POLL_INTERVAL + POLL_INTERVAL * k < TIMEOUT"
      with 1(2) [rule_format, of "Suc k"]
      show "buildrun_status w (ELAPSED + POLL_INTERVAL + POLL_INTERVAL * k) \<noteq> ''True''
       \<and> buildrun_status w (ELAPSED + POLL_INTERVAL + POLL_INTERVAL * k) \<noteq> ''False''"
        by (simp add: add.assoc)
    qed
    with 1(1) True p obtain e where "snd (poll_loop w brn ns (ELAPSED + POLL_INTERVAL)) = Done e"
      by blast
    with True p show ?thesis
      by (subst poll_loop.simps) (auto split: prod.splits)
  next
    case False
    then show ?thesis by (subst poll_loop.simps) simp
  qed
qed

lemma poll_loop_failed:
  "t + POLL_INTERVAL * j < TIMEOUT \<Longrightarrow>
   buildrun_status w (t + POLL_INTERVAL * j) = ''False'' \<Longrightarrow>
   \<forall>k<j. buildrun_status w (t + POLL_INTERVAL * k) \<noteq> ''True''
       \<and> buildrun_status w (t + POLL_INTERVAL * k) \<noteq> ''False'' \<Longrightarrow>
   \<exists>pre. poll_loop w brn ns t =
     (pre @ [Echo (''BuildRun failed with reason: '' @ buildrun_reason w (t + POLL_INTERVAL * j)),
             KubectlGetBuildRunYaml brn ns],
      Exit (if buildrun_yaml_rc w = 0 then 1 else buildrun_yaml_rc w))"
proof (induction j arbitrary: t)
  case 0
  then show ?case by (subst poll_loop.simps) simp
next
  case (Suc j)
  from Suc.prems(3) [rule_format, of 0]
  have p: "buildrun_status w t \<noteq> ''True''" "buildrun_status w t \<noteq> ''False''" by simp_all
  have lt: "t < TIMEOUT" using Suc.prems(1) by simp
  have a: "t + POLL_INTERVAL + POLL_INTERVAL * j < TIMEOUT"
    using Suc.prems(1) by (simp add: add.assoc)
  have b: "buildrun_status w (t + POLL_INTERVAL + POLL_INTERVAL * j) = ''False''"
    using Suc.prems(2) by (simp add: add.assoc)
  have c: "\<forall>k<j. buildrun_status w (t + POLL_INTERVAL + POLL_INTERVAL * k) \<noteq> ''True''
       \<and> buildrun_status w (t + POLL_INTERVAL + POLL_INTERVAL * k) \<noteq> ''False''"
  proof (intro allI impI)
    fix k assume "k < j"
    with Suc.prems(3) [rule_format, of "Suc k"]
    show "buildrun_status w (t + POLL_INTERVAL + POLL_INTERVAL * k) \<noteq> ''True''
       \<and> buildrun_status w (t + POLL_INTERVAL + POLL_INTERVAL * k) \<noteq> ''False''"
      by (simp add: add.assoc)
  qed
  from Suc.IH [OF a b c] obtain pre where
    "poll_loop w brn ns (t + POLL_INTERVAL) =
     (pre @ [Echo (''BuildRun failed with reason: '' @ buildrun_reason w (t + POLL_INTERVAL + POLL_INTERVAL * j)),
             KubectlGetBuildRunYaml brn ns],
      Exit (if buildrun_yaml_rc w = 0 then 1 else buildrun_yaml_rc w))" by blast
  with p lt show ?case
    by (subst poll_loop.simps) (simp add: add.assoc)
qed



lemma poll_loop_step_numbers:
  "e \<in> set (fst (poll_loop w brn ns t)) \<Longrightarrow> step_number e = None \<or> step_number e = Some 3"
proof (induction w brn ns t rule: poll_loop.induct)
  case (1 w brn ns ELAPSED)
  show ?case
  proof (cases "ELAPSED < TIMEOUT \<and> buildrun_status w ELAPSED \<noteq> ''True'' \<and> buildrun_status w ELAPSED \<noteq> ''False''")
    case True
    with 1 show ?thesis
      by (subst (asm) (2) poll_loop.simps) (auto split: prod.splits)
  next
    case False
    with 1(2) show ?thesis
      by (subst (asm) poll_loop.simps) (auto split: if_splits)
  qed
qed

lemma wait_events:
  "e \<in> set (fst (wait_for_buildrun w brn ns)) \<Longrightarrow>
     applied_kind e = None \<and> (step_number e = None \<or> step_number e = Some 3)"
  using poll_loop_no_apply [of e w brn ns 0] poll_loop_step_numbers [of e w brn ns 0]
  by (auto simp: wait_for_buildrun_def split: prod.splits loop_exit.splits if_splits)

lemma wait_events_step:
  "e \<in> set (fst (wait_for_buildrun w brn ns)) \<Longrightarrow> step_number e = Some y \<Longrightarrow> y = 3"
  using wait_events [of e w brn ns] by auto

lemma wait_continues:
  assumes "snd (wait_for_buildrun w brn ns) = None"
  shows "\<exists>j. POLL_INTERVAL * j < TIMEOUT \<and> buildrun_status w (POLL_INTERVAL * j) = ''True''
       \<and> (\<forall>k<j. buildrun_status w (POLL_INTERVAL * k) \<noteq> ''True''
                \<and> buildrun_status w (POLL_INTERVAL * k) \<noteq> ''False'')"
proof -
  obtain evs out where pl: "poll_loop w brn ns 0 = (evs, out)" by (cases "poll_loop w brn ns 0")
  show ?thesis
  proof (cases out)
    case (Break e)
    with pl have "snd (poll_loop w brn ns 0) = Break e" by simp
    from poll_loop_Break [OF this] show ?thesis by auto
  next
    case (Exit rc)
    with pl assms show ?thesis by (simp add: wait_for_buildrun_def)
  next
    case (Done e)
    with pl have "snd (poll_loop w brn ns 0) = Done e" by simp
    from poll_loop_Done [OF this] pl Done assms show ?thesis
      by (simp add: wait_for_buildrun_def)
  qed
qed

lemma wait_exit_nonzero:
  assumes "snd (wait_for_buildrun w brn ns) = Some rc"
  shows "rc \<noteq> 0"
proof -
  obtain evs out where pl: "poll_loop w brn ns 0 = (evs, out)" by (cases "poll_loop w brn ns 0")
  show ?thesis
  proof (cases out)
    case (Exit rc')
    with pl have "snd (poll_loop w brn ns 0) = Exit rc'" by simp
    from poll_loop_Exit [OF this] pl Exit assms show ?thesis
      by (simp add: wait_for_buildrun_def)
  qed (use pl assms in \<open>auto simp: wait_for_buildrun_def split: if_splits\<close>)
qed

lemma wait_failed:
  assumes "POLL_INTERVAL * j < TIMEOUT" "buildrun_status w (POLL_INTERVAL * j) = ''False''"
    "\<forall>k<j. buildrun_status w (POLL_INTERVAL * k) \<noteq> ''True''
       \<and> buildrun_status w (POLL_INTERVAL * k) \<noteq> ''False''"
  shows "\<exists>pre. wait_for_buildrun w brn ns =
     (pre @ [Echo (''BuildRun failed with reason: '' @ buildrun_reason w (POLL_INTERVAL * j)),
             KubectlGetBuildRunYaml brn ns],
      Some (if buildrun_yaml_rc w = 0 then 1 else buildrun_yaml_rc w))"
  using poll_loop_failed [of 0 j w brn ns] assms
  by (auto simp: wait_for_buildrun_def)

lemma wait_timed_out:
  assumes "\<forall>k. POLL_INTERVAL * k < TIMEOUT \<longrightarrow>
       buildrun_status w (POLL_INTERVAL * k) \<noteq> ''True''
       \<and> buildrun_status w (POLL_INTERVAL * k) \<noteq> ''False''"
  shows "\<exists>pre. wait_for_buildrun w brn ns =
     (pre @ [Echo ''Timeout waiting for BuildRun to complete''], Some 1)"
proof -
  from poll_loop_pending [of 0 w brn ns] assms
  obtain e where e: "snd (poll_loop w brn ns 0) = Done e" by auto
  from poll_loop_Done [OF e] e show ?thesis
    by (cases "poll_loop w brn ns 0") (auto simp: wait_for_buildrun_def)
qed

lemma build_segment:
  "exec (steps_build v w) = (evs, r) \<Longrightarrow>
     (case r of
          None \<Rightarrow> applied_kinds evs = [Build, BuildRun] \<and> created_kinds evs = [Build, BuildRun]
        | Some rc \<Rightarrow> rc \<noteq> 0 \<and>
            ((applied_kinds evs = [Build] \<and> created_kinds evs = [])
             \<or> (applied_kinds evs = [Build, BuildRun] \<and> created_kinds evs = [Build])))"
  by (auto simp: steps_build_def build_manifest_def buildrun_manifest_def
        applied_kinds_def created_kinds_def List.map_filter_simps split: if_splits)

lemma wait_segment:
  assumes "exec (steps_wait v w) = (evs, r)"
  shows "(\<forall>e \<in> set evs. applied_kind e = None \<and> (step_number e = None \<or> step_number e = Some 3))
     \<and> r = snd (wait_for_buildrun w (BUILDRUN_NAME v (date_epoch_seconds w)) (NAMESPACE v))"
proof -
  obtain a b where wf: "wait_for_buildrun w (BUILDRUN_NAME v (date_epoch_seconds w)) (NAMESPACE v) = (a, b)"
    by (cases "wait_for_buildrun w (BUILDRUN_NAME v (date_epoch_seconds w)) (NAMESPACE v)")
  have "exec (steps_wait v w) =
     ([Echo [], Echo ''Step 3: Waiting for BuildRun to complete...'',
       Echo ''This may take several minutes depending on the build complexity.''] @ a, b)"
    by (cases b) (simp_all add: steps_wait_def wf)
  with assms have evs: "evs = [Echo [], Echo ''Step 3: Waiting for BuildRun to complete...'',
       Echo ''This may take several minutes depending on the build complexity.''] @ a"
    and r: "r = b" by simp_all
  have "\<And>e. e \<in> set a \<Longrightarrow> applied_kind e = None \<and> (step_number e = None \<or> step_number e = Some 3)"
    using wait_events [of _ w "BUILDRUN_NAME v (date_epoch_seconds w)" "NAMESPACE v"] wf by simp
  then have "\<forall>e \<in> set evs. applied_kind e = None \<and> (step_number e = None \<or> step_number e = Some 3)"
    unfolding evs by auto
  with r wf show ?thesis by simp
qed


lemma deploy_segment:
  "exec (steps_deploy v w) = (evs, r) \<Longrightarrow>
     (case r of
          None \<Rightarrow> applied_kinds evs = [Deployment, Service] \<and> created_kinds evs = [Deployment, Service]
             \<and> KubectlWaitDeployment (TOOL_NAME v) (NAMESPACE v) \<in> set evs
        | Some rc \<Rightarrow> rc \<noteq> 0 \<and>
            ((applied_kinds evs = [] \<and> created_kinds evs = [])
             \<or> (applied_kinds evs = [Deployment] \<and> created_kinds evs = [])
             \<or> (applied_kinds evs = [Deployment, Service] \<and> created_kinds evs = [Deployment])
             \<or> (applied_kinds evs = [Deployment, Service] \<and> created_kinds evs = [Deployment, Service])))"
  by (auto simp: steps_deploy_def deployment_manifest_def service_manifest_def exec_continue
        applied_kinds_def created_kinds_def List.map_filter_simps split: if_splits)

lemma exec_take: "\<exists>n. fst (exec steps) = take n (concat (map fst steps))"
proof (induction steps)
  case Nil
  show ?case by simp
next
  case (Cons s steps)
  obtain evs r where s: "s = (evs, r)" by (cases s)
  show ?case
  proof (cases r)
    case None
    from Cons obtain n where "fst (exec steps) = take n (concat (map fst steps))" by blast
    with s None have "fst (exec (s # steps)) = take (length evs + n) (concat (map fst (s # steps)))"
      by (cases "exec steps") simp
    then show ?thesis by blast
  next
    case (Some rc)
    with s have "fst (exec (s # steps)) = take (length evs) (concat (map fst (s # steps)))"
      by simp
    then show ?thesis by blast
  qed
qed

lemma map_filter_append:
  "List.map_filter f (xs @ ys) = List.map_filter f xs @ List.map_filter f ys"
  by (simp add: List.map_filter_def)

lemma map_filter_take: "\<exists>m. List.map_filter f (take n xs) = take m (List.map_filter f xs)"
proof (induction xs arbitrary: n)
  case Nil
  show ?case by (simp add: List.map_filter_simps)
next
  case (Cons x xs)
  show ?case
  proof (cases n)
    case 0
    have "List.map_filter f (take 0 (x # xs)) = take 0 (List.map_filter f (x # xs))"
      by (simp add: List.map_filter_simps)
    with 0 show ?thesis by blast
  next
    case (Suc n')
    from Cons [of n'] obtain m where m: "List.map_filter f (take n' xs) = take m (List.map_filter f xs)"
      by blast
    show ?thesis
    proof (cases "f x")
      case None
      with Suc m have "List.map_filter f (take n (x # xs)) = take m (List.map_filter f (x # xs))"
        by (simp add: List.map_filter_simps)
      then show ?thesis by blast
    next
      case (Some y)
      with Suc m have "List.map_filter f (take n (x # xs)) = take (Suc m) (List.map_filter f (x # xs))"
        by (simp add: List.map_filter_simps)
      then show ?thesis by blast
    qed
  qed
qed

lemma sorted_exec:
  assumes "sorted (List.map_filter f (concat (map fst steps)))"
  shows "sorted (List.map_filter f (fst (exec steps)))"
proof -
  from exec_take obtain n where "fst (exec steps) = take n (concat (map fst steps))" by blast
  moreover from map_filter_take obtain m where
    "List.map_filter f (take n (concat (map fst steps))) = take m (List.map_filter f (concat (map fst steps)))"
    by blast
  ultimately show ?thesis using assms by (simp add: sorted_wrt_take)
qed

lemma constant_sorted: "\<forall>x \<in> set xs. x = (c::nat) \<Longrightarrow> sorted xs"
  by (induction xs) auto

lemma wait_step_numbers:
  "\<forall>x \<in> set (List.map_filter step_number (fst (wait_for_buildrun w brn ns))). x = 3"
  by (auto simp: List.map_filter_def dest: wait_events_step)

lemma script_sorted:
  "sorted (List.map_filter step_number (concat (map fst (script v w))))"
proof -
  let ?xs = "List.map_filter step_number
               (fst (wait_for_buildrun w (BUILDRUN_NAME v (date_epoch_seconds w)) (NAMESPACE v)))"
  have b: "List.map_filter step_number (concat (map fst (steps_build v w))) = [1, 2]"
    by (simp add: steps_build_def echo_def errexit_def build_manifest_def buildrun_manifest_def
          List.map_filter_simps)
  have wt: "List.map_filter step_number (concat (map fst (steps_wait v w))) = ?xs"
    by (simp add: steps_wait_def echo_def List.map_filter_simps)
  have d: "List.map_filter step_number (concat (map fst (steps_deploy v w)))
           = (if wait_rc w = 0 then [4, 4, 5, 5, 6] else [4, 4, 5, 5, 6, 6])"
    by (simp add: steps_deploy_def echo_def errexit_def deployment_manifest_def
          service_manifest_def List.map_filter_simps map_filter_append)
  have x3: "\<forall>x \<in> set ?xs. x = 3" by (rule wait_step_numbers)
  then have sx: "sorted ?xs" by (rule constant_sorted)
  have "sorted ([1, 2] @ ?xs @ (if wait_rc w = 0 then [4, 4, 5, 5, 6] else [4, 4, 5, 5, 6, 6]))"
    using x3 sx by (auto simp: sorted_append)
  then show ?thesis
    by (simp only: script_def map_append concat_append map_filter_append b wt d)
qed



lemma applied_kinds_append [simp]: "applied_kinds (xs @ ys) = applied_kinds xs @ applied_kinds ys"
  by (simp add: applied_kinds_def map_filter_append)

lemma created_kinds_append [simp]: "created_kinds (xs @ ys) = created_kinds xs @ created_kinds ys"
  by (simp add: created_kinds_def map_filter_append)

lemma created_none: "applied_kind e = None \<Longrightarrow> created_kind e = None"
  by (cases e) auto

lemma no_apply_kinds:
  assumes "\<forall>e \<in> set evs. applied_kind e = None"
  shows "applied_kinds evs = [] \<and> created_kinds evs = []"
  using assms
  by (induction evs) (auto simp: applied_kinds_def created_kinds_def List.map_filter_simps created_none)

lemma script_cases:
  assumes "exec (script v w) = (evs, r)"
  shows "(\<exists>rc. r = Some rc \<and> rc \<noteq> 0 \<and>
            (applied_kinds evs = [Build] \<and> created_kinds evs = []
             \<or> applied_kinds evs = [Build, BuildRun] \<and> created_kinds evs = [Build]))
     \<or> (\<exists>rc. r = Some rc \<and> rc \<noteq> 0
            \<and> snd (wait_for_buildrun w (BUILDRUN_NAME v (date_epoch_seconds w)) (NAMESPACE v)) = Some rc
            \<and> applied_kinds evs = [Build, BuildRun] \<and> created_kinds evs = [Build, BuildRun])
     \<or> (snd (wait_for_buildrun w (BUILDRUN_NAME v (date_epoch_seconds w)) (NAMESPACE v)) = None
          \<and> (\<exists>rc. r = Some rc \<and> rc \<noteq> 0)
          \<and> (applied_kinds evs = [Build, BuildRun] \<and> created_kinds evs = [Build, BuildRun]
              \<or> applied_kinds evs = [Build, BuildRun, Deployment] \<and> created_kinds evs = [Build, BuildRun]
              \<or> applied_kinds evs = [Build, BuildRun, Deployment, Service]
                  \<and> created_kinds evs = [Build, BuildRun, Deployment]
              \<or> applied_kinds evs = [Build, BuildRun, Deployment, Service]
                  \<and> created_kinds evs = [Build, BuildRun, Deployment, Service]))
     \<or> (snd (wait_for_buildrun w (BUILDRUN_NAME v (date_epoch_seconds w)) (NAMESPACE v)) = None
          \<and> r = None
          \<and> applied_kinds evs = [Build, BuildRun, Deployment, Service]
          \<and> created_kinds evs = [Build, BuildRun, Deployment, Service]
          \<and> KubectlWaitDeployment (TOOL_NAME v) (NAMESPACE v) \<in> set evs)"
proof -
  obtain eb rb where B: "exec (steps_build v w) = (eb, rb)" by (cases "exec (steps_build v w)")
  obtain ew rw where W: "exec (steps_wait v w) = (ew, rw)" by (cases "exec (steps_wait v w)")
  obtain ed rd where D: "exec (steps_deploy v w) = (ed, rd)" by (cases "exec (steps_deploy v w)")
  have ex: "exec (script v w) = exec [(eb, rb), exec [(ew, rw), (ed, rd)]]"
    unfolding script_def exec_append B W D ..
  note b = build_segment [OF B]
  from wait_segment [OF W] have
    rw: "rw = snd (wait_for_buildrun w (BUILDRUN_NAME v (date_epoch_seconds w)) (NAMESPACE v))"
    and kw: "applied_kinds ew = [] \<and> created_kinds ew = []"
    using no_apply_kinds [of ew] by auto
  note d = deploy_segment [OF D]
  show ?thesis
  proof (cases rb)
    case (Some rc)
    with ex assms have "evs = eb" "r = Some rc" by simp_all
    with b Some show ?thesis by simp
  next
    case None
    note rbN = this
    show ?thesis
    proof (cases rw)
      case (Some rc)
      with ex assms rbN have e: "evs = eb @ ew" "r = Some rc" by simp_all
      from Some rw wait_exit_nonzero have "rc \<noteq> 0" by metis
      with e b rbN kw Some rw show ?thesis by simp
    next
      case None
      note rwN = this
      show ?thesis
      proof (cases rd)
        case (Some rc)
        with ex assms rbN rwN have e: "evs = eb @ ew @ ed" "r = Some rc" by simp_all
        with b d rbN rwN kw Some rw show ?thesis by auto
      next
        case None
        with ex assms rbN rwN have e: "evs = eb @ ew @ ed" "r = None" by simp_all
        with b d rbN rwN kw None rw show ?thesis by auto
      qed
    qed
  qed
qed


lemma build_segment_ok:
  "apply_rc w Build = 0 \<Longrightarrow> apply_rc w BuildRun = 0 \<Longrightarrow> snd (exec (steps_build v w)) = None"
  by (simp add: steps_build_def)

lemma run_exit_in_wait:
  assumes "apply_rc w Build = 0" "apply_rc w BuildRun = 0"
    and "wait_for_buildrun w (BUILDRUN_NAME (script_vars env) (date_epoch_seconds w))
           (NAMESPACE (script_vars env)) = (evs, Some rc)"
  shows "\<exists>pre. run env w = (pre @ evs, rc)"
proof -
  let ?v = "script_vars env"
  obtain eb rb where B: "exec (steps_build ?v w) = (eb, rb)" by (cases "exec (steps_build ?v w)")
  with build_segment_ok [OF assms(1,2), of ?v] have rb: "rb = None" by simp
  have W: "exec (steps_wait ?v w) =
     ([Echo [], Echo ''Step 3: Waiting for BuildRun to complete...'',
       Echo ''This may take several minutes depending on the build complexity.''] @ evs, Some rc)"
    by (simp add: steps_wait_def assms(3))
  have "exec (script ?v w) = (eb @ [Echo [], Echo ''Step 3: Waiting for BuildRun to complete...'',
       Echo ''This may take several minutes depending on the build complexity.''] @ evs, Some rc)"
    unfolding script_def exec_append [of "steps_build ?v w"] exec_append [of "steps_wait ?v w"] B W rb
    by (cases "exec (steps_deploy ?v w)") simp
  then have "run env w = ((eb @ [Echo [], Echo ''Step 3: Waiting for BuildRun to complete...'',
       Echo ''This may take several minutes depending on the build complexity.'']) @ evs, rc)"
    by (simp add: run_def exit_status_def)
  then show ?thesis by blast
qed

lemma run_build_fails:
  "apply_rc w Build = 0 \<Longrightarrow> apply_rc w BuildRun = 0 \<Longrightarrow>
   POLL_INTERVAL * j < TIMEOUT \<Longrightarrow> buildrun_status w (POLL_INTERVAL * j) = ''False'' \<Longrightarrow>
   \<forall>k<j. buildrun_status w (POLL_INTERVAL * k) \<noteq> ''True''
       \<and> buildrun_status w (POLL_INTERVAL * k) \<noteq> ''False'' \<Longrightarrow>
   \<exists>pre. run env w =
     (pre @ [Echo (''BuildRun failed with reason: '' @ buildrun_reason w (POLL_INTERVAL * j)),
             KubectlGetBuildRunYaml (BUILDRUN_NAME (script_vars env) (date_epoch_seconds w))
               (NAMESPACE (script_vars env))],
      if buildrun_yaml_rc w = 0 then 1 else buildrun_yaml_rc w)"
proof -
  assume a: "apply_rc w Build = 0" "apply_rc w BuildRun = 0"
    and f: "POLL_INTERVAL * j < TIMEOUT" "buildrun_status w (POLL_INTERVAL * j) = ''False''"
    "\<forall>k<j. buildrun_status w (POLL_INTERVAL * k) \<noteq> ''True''
       \<and> buildrun_status w (POLL_INTERVAL * k) \<noteq> ''False''"
  let ?rc = "if buildrun_yaml_rc w = 0 then 1 else buildrun_yaml_rc w"
  from wait_failed [OF f, of "BUILDRUN_NAME (script_vars env) (date_epoch_seconds w)"
      "NAMESPACE (script_vars env)"]
  obtain p where "wait_for_buildrun w (BUILDRUN_NAME (script_vars env) (date_epoch_seconds w))
           (NAMESPACE (script_vars env)) =
     (p @ [Echo (''BuildRun failed with reason: '' @ buildrun_reason w (POLL_INTERVAL * j)),
             KubectlGetBuildRunYaml (BUILDRUN_NAME (script_vars env) (date_epoch_seconds w))
               (NAMESPACE (script_vars env))], Some ?rc)" by blast
  from run_exit_in_wait [OF a this] obtain pre where
    "run env w = (pre @ p @ [Echo (''BuildRun failed with reason: '' @ buildrun_reason w (POLL_INTERVAL * j)),
             KubectlGetBuildRunYaml (BUILDRUN_NAME (script_vars env) (date_epoch_seconds w))
               (NAMESPACE (script_vars env))], ?rc)" by blast
  then have "run env w = ((pre @ p) @ [Echo (''BuildRun failed with reason: '' @ buildrun_reason w (POLL_INTERVAL * j)),
             KubectlGetBuildRunYaml (BUILDRUN_NAME (script_vars env) (date_epoch_seconds w))
               (NAMESPACE (script_vars env))], ?rc)" by simp
  then show ?thesis by blast
qed

lemma run_build_hangs:
  "apply_rc w Build = 0 \<Longrightarrow> apply_rc w BuildRun = 0 \<Longrightarrow>
   \<forall>k. POLL_INTERVAL * k < TIMEOUT \<longrightarrow>
       buildrun_status w (POLL_INTERVAL * k) \<noteq> ''True''
       \<and> buildrun_status w (POLL_INTERVAL * k) \<noteq> ''False'' \<Longrightarrow>
   \<exists>pre. run env w = (pre @ [Echo ''Timeout waiting for BuildRun to complete''], 1)"
proof -
  assume a: "apply_rc w Build = 0" "apply_rc w BuildRun = 0"
    and f: "\<forall>k. POLL_INTERVAL * k < TIMEOUT \<longrightarrow>
       buildrun_status w (POLL_INTERVAL * k) \<noteq> ''True''
       \<and> buildrun_status w (POLL_INTERVAL * k) \<noteq> ''False''"
  from wait_timed_out [OF f, of "BUILDRUN_NAME (script_vars env) (date_epoch_seconds w)"
      "NAMESPACE (script_vars env)"]
  obtain p where "wait_for_buildrun w (BUILDRUN_NAME (script_vars env) (date_epoch_seconds w))
           (NAMESPACE (script_vars env)) =
     (p @ [Echo ''Timeout waiting for BuildRun to complete''], Some 1)" by auto
  from run_exit_in_wait [OF a this] obtain pre where
    "run env w = (pre @ p @ [Echo ''Timeout waiting for BuildRun to complete''], 1)" by blast
  then have "run env w = ((pre @ p) @ [Echo ''Timeout waiting for BuildRun to complete''], 1)" by simp
  then show ?thesis by blast
qed

lemma world_build_fails_facts:
  "apply_rc world_build_fails Build = 0" "apply_rc world_build_fails BuildRun = 0"
  "POLL_INTERVAL * 1 < TIMEOUT" "buildrun_status world_build_fails (POLL_INTERVAL * 1) = ''False''"
  "\<forall>k<1. buildrun_status world_build_fails (POLL_INTERVAL * k) \<noteq> ''True''
       \<and> buildrun_status world_build_fails (POLL_INTERVAL * k) \<noteq> ''False''"
  by (simp_all add: world_build_fails_def world_build_succeeds_def POLL_INTERVAL_def TIMEOUT_def)

lemma world_build_fails_dump_facts:
  "apply_rc (world_build_fails\<lparr>buildrun_yaml_rc := 7\<rparr>) Build = 0"
  "apply_rc (world_build_fails\<lparr>buildrun_yaml_rc := 7\<rparr>) BuildRun = 0"
  "POLL_INTERVAL * 1 < TIMEOUT"
  "buildrun_status (world_build_fails\<lparr>buildrun_yaml_rc := 7\<rparr>) (POLL_INTERVAL * 1) = ''False''"
  "\<forall>k<1. buildrun_status (world_build_fails\<lparr>buildrun_yaml_rc := 7\<rparr>) (POLL_INTERVAL * k) \<noteq> ''True''
       \<and> buildrun_status (world_build_fails\<lparr>buildrun_yaml_rc := 7\<rparr>) (POLL_INTERVAL * k) \<noteq> ''False''"
  by (simp_all add: world_build_fails_def world_build_succeeds_def POLL_INTERVAL_def TIMEOUT_def)

lemma world_build_succeeds_facts:
  "apply_rc world_build_succeeds Build = 0" "apply_rc world_build_succeeds BuildRun = 0"
  "POLL_INTERVAL * 2 < TIMEOUT"
  "buildrun_status world_build_succeeds (POLL_INTERVAL * 2) = ''True''"
  "\<forall>k<2. buildrun_status world_build_succeeds (POLL_INTERVAL * k) \<noteq> ''True''
       \<and> buildrun_status world_build_succeeds (POLL_INTERVAL * k) \<noteq> ''False''"
  "fst (output_image world_build_succeeds) = 0" "fst (output_digest world_build_succeeds) = 0"
  "apply_rc world_build_succeeds Deployment = 0" "apply_rc world_build_succeeds Service = 0"
  by (simp_all add: world_build_succeeds_def POLL_INTERVAL_def TIMEOUT_def)

lemma world_build_hangs_facts:
  "apply_rc world_build_hangs Build = 0" "apply_rc world_build_hangs BuildRun = 0"
  "\<forall>k. POLL_INTERVAL * k < TIMEOUT \<longrightarrow>
       buildrun_status world_build_hangs (POLL_INTERVAL * k) \<noteq> ''True''
       \<and> buildrun_status world_build_hangs (POLL_INTERVAL * k) \<noteq> ''False''"
  by (simp_all add: world_build_hangs_def world_build_succeeds_def)

lemma world_build_succeeds_run:
  "snd (run Map.empty world_build_succeeds) = 0
   \<and> applied_kinds (fst (run Map.empty world_build_succeeds)) = [Build, BuildRun, Deployment, Service]
   \<and> created_kinds (fst (run Map.empty world_build_succeeds)) = [Build, BuildRun, Deployment, Service]"
  by (simp add: run_def script_def steps_build_def steps_wait_def steps_deploy_def
        world_build_succeeds_def wait_for_buildrun_def poll_loop.simps TIMEOUT_def POLL_INTERVAL_def
        exit_status_def exec_continue applied_kinds_def created_kinds_def List.map_filter_simps
        build_manifest_def buildrun_manifest_def deployment_manifest_def service_manifest_def)


lemma run_events_subset:
  "set (fst (run env w)) \<subseteq> set (concat (map fst (script (script_vars env) w)))"
proof -
  from exec_take [of "script (script_vars env) w"] obtain n where
    "fst (exec (script (script_vars env) w)) = take n (concat (map fst (script (script_vars env) w)))"
    by blast
  then have "fst (run env w) = take n (concat (map fst (script (script_vars env) w)))"
    by (cases "exec (script (script_vars env) w)") (simp add: run_def)
  then show ?thesis by (simp only: set_take_subset)
qed

lemma script_applies:
  assumes "KubectlApply m rc \<in> set (concat (map fst (script v w)))"
  shows "m = build_manifest v \<or> m = buildrun_manifest v (BUILDRUN_NAME v (date_epoch_seconds w))
       \<or> m = deployment_manifest v (snd (output_image w)) \<or> m = service_manifest v"
proof -
  from assms consider
    (b) "KubectlApply m rc \<in> set (concat (map fst (steps_build v w)))"
    | (w) "KubectlApply m rc \<in> set (concat (map fst (steps_wait v w)))"
    | (d) "KubectlApply m rc \<in> set (concat (map fst (steps_deploy v w)))"
    by (auto simp: script_def)
  then show ?thesis
  proof cases
    case b
    then show ?thesis by (auto simp: steps_build_def echo_def errexit_def)
  next
    case w
    then have "KubectlApply m rc \<in> set (fst (wait_for_buildrun w (BUILDRUN_NAME v (date_epoch_seconds w)) (NAMESPACE v)))"
      by (simp add: steps_wait_def echo_def)
    from wait_events [OF this] show ?thesis by simp
  next
    case d
    then show ?thesis by (auto simp: steps_deploy_def echo_def errexit_def split: if_splits)
  qed
qed

lemma show_nat_nonempty: "show_nat n \<noteq> []"
  by (subst show_nat.simps) simp

lemma digit_char_inj: "a < 10 \<Longrightarrow> b < 10 \<Longrightarrow> digit_char a = digit_char b \<Longrightarrow> a = b"
  by (simp add: digit_char_def char_of_eq_iff take_bit_eq_mod)

lemma show_nat_inj: "show_nat n = show_nat m \<Longrightarrow> n = m"
proof (induction n arbitrary: m rule: show_nat.induct)
  case (1 n)
  show ?case
  proof (cases "n < 10")
    case True
    note n = this
    show ?thesis
    proof (cases "m < 10")
      case True
      with n 1(2) show ?thesis
        by (simp add: show_nat.simps [of n] show_nat.simps [of m] digit_char_inj)
    next
      case False
      with n 1(2) show_nat_nonempty [of "m div 10"] show ?thesis
        by (simp add: show_nat.simps [of n] show_nat.simps [of m])
    qed
  next
    case False
    note n = this
    show ?thesis
    proof (cases "m < 10")
      case True
      with n 1(2) show_nat_nonempty [of "n div 10"] show ?thesis
        by (simp add: show_nat.simps [of n] show_nat.simps [of m])
    next
      case False
      with n 1(2) have eq: "show_nat (n div 10) = show_nat (m div 10)"
        and d: "digit_char (n mod 10) = digit_char (m mod 10)"
        by (simp_all add: show_nat.simps [of n] show_nat.simps [of m])
      from 1(1) [OF n eq] have "n div 10 = m div 10" .
      moreover from d have "n mod 10 = m mod 10" by (simp add: digit_char_inj)
      ultimately show ?thesis by (metis div_mult_mod_eq)
    qed
  qed
qed

lemma world_build_succeeds_service:
  "KubectlApply (service_manifest (script_vars Map.empty)) 0
     \<in> set (fst (run Map.empty world_build_succeeds))"
  by (simp add: run_def script_def steps_build_def steps_wait_def steps_deploy_def
        world_build_succeeds_def wait_for_buildrun_def poll_loop.simps TIMEOUT_def POLL_INTERVAL_def
        exit_status_def exec_continue)

lemma status_polls_append [simp]: "status_polls (xs @ ys) = status_polls xs + status_polls ys"
  by (simp add: status_polls_def)

lemma poll_loop_polls:
  "t < TIMEOUT \<Longrightarrow>
   \<exists>m. status_polls (fst (poll_loop w brn ns t)) = Suc m
       \<and> (\<forall>k<m. buildrun_status w (t + POLL_INTERVAL * k) \<noteq> ''True''
                \<and> buildrun_status w (t + POLL_INTERVAL * k) \<noteq> ''False'')
       \<and> t + POLL_INTERVAL * m < TIMEOUT
       \<and> (buildrun_status w (t + POLL_INTERVAL * m) = ''True''
            \<and> snd (poll_loop w brn ns t) = Break (t + POLL_INTERVAL * m)
          \<or> buildrun_status w (t + POLL_INTERVAL * m) = ''False''
            \<and> (\<exists>rc. snd (poll_loop w brn ns t) = Exit rc)
          \<or> buildrun_status w (t + POLL_INTERVAL * m) \<noteq> ''True''
            \<and> buildrun_status w (t + POLL_INTERVAL * m) \<noteq> ''False''
            \<and> TIMEOUT \<le> t + POLL_INTERVAL * m + POLL_INTERVAL
            \<and> (\<exists>e. snd (poll_loop w brn ns t) = Done e))"
proof (induction w brn ns t rule: poll_loop.induct)
  case (1 w brn ns ELAPSED)
  note lt = \<open>ELAPSED < TIMEOUT\<close>
  show ?case
  proof (cases "buildrun_status w ELAPSED = ''True'' \<or> buildrun_status w ELAPSED = ''False''")
    case True
    with lt have "status_polls (fst (poll_loop w brn ns ELAPSED)) = Suc 0
       \<and> (buildrun_status w ELAPSED = ''True'' \<and> snd (poll_loop w brn ns ELAPSED) = Break ELAPSED
          \<or> buildrun_status w ELAPSED = ''False'' \<and> (\<exists>rc. snd (poll_loop w brn ns ELAPSED) = Exit rc))"
      by (subst (1 2 3) poll_loop.simps) (auto simp: status_polls_def)
    with lt show ?thesis by (intro exI [of _ 0]) auto
  next
    case False
    then have p: "buildrun_status w ELAPSED \<noteq> ''True''" "buildrun_status w ELAPSED \<noteq> ''False''"
      by simp_all
    have unfold: "poll_loop w brn ns ELAPSED =
       (case poll_loop w brn ns (ELAPSED + POLL_INTERVAL) of (evs, out) \<Rightarrow>
              ([KubectlGetBuildRun brn ns ''status'', KubectlGetBuildRun brn ns ''reason'',
                Echo (''BuildRun status: '' @ or_else (Some (buildrun_reason w ELAPSED)) ''Pending''
                      @ ''... ('' @ show_nat ELAPSED @ ''s elapsed)''),
                Sleep POLL_INTERVAL] @ evs,
               out))"
      using lt p by (subst poll_loop.simps) simp
    obtain evs out where rec: "poll_loop w brn ns (ELAPSED + POLL_INTERVAL) = (evs, out)"
      by (cases "poll_loop w brn ns (ELAPSED + POLL_INTERVAL)")
    have cnt: "status_polls (fst (poll_loop w brn ns ELAPSED)) = Suc (status_polls evs)"
      and out: "snd (poll_loop w brn ns ELAPSED) = out"
      unfolding unfold rec by (simp_all add: status_polls_def)
    show ?thesis
    proof (cases "ELAPSED + POLL_INTERVAL < TIMEOUT")
      case True
      from 1(1) [OF lt p True] rec obtain m where m:
        "status_polls evs = Suc m"
        "\<forall>k<m. buildrun_status w (ELAPSED + POLL_INTERVAL + POLL_INTERVAL * k) \<noteq> ''True''
                \<and> buildrun_status w (ELAPSED + POLL_INTERVAL + POLL_INTERVAL * k) \<noteq> ''False''"
        "ELAPSED + POLL_INTERVAL + POLL_INTERVAL * m < TIMEOUT"
        "buildrun_status w (ELAPSED + POLL_INTERVAL + POLL_INTERVAL * m) = ''True''
            \<and> out = Break (ELAPSED + POLL_INTERVAL + POLL_INTERVAL * m)
          \<or> buildrun_status w (ELAPSED + POLL_INTERVAL + POLL_INTERVAL * m) = ''False''
            \<and> (\<exists>rc. out = Exit rc)
          \<or> buildrun_status w (ELAPSED + POLL_INTERVAL + POLL_INTERVAL * m) \<noteq> ''True''
            \<and> buildrun_status w (ELAPSED + POLL_INTERVAL + POLL_INTERVAL * m) \<noteq> ''False''
            \<and> TIMEOUT \<le> ELAPSED + POLL_INTERVAL + POLL_INTERVAL * m + POLL_INTERVAL
            \<and> (\<exists>e. out = Done e)"
        by auto
      have sh: "ELAPSED + POLL_INTERVAL + POLL_INTERVAL * k = ELAPSED + POLL_INTERVAL * Suc k" for k
        by simp
      have pend: "\<forall>k<Suc m. buildrun_status w (ELAPSED + POLL_INTERVAL * k) \<noteq> ''True''
                \<and> buildrun_status w (ELAPSED + POLL_INTERVAL * k) \<noteq> ''False''"
      proof (intro allI impI)
        fix k assume "k < Suc m"
        show "buildrun_status w (ELAPSED + POLL_INTERVAL * k) \<noteq> ''True''
                \<and> buildrun_status w (ELAPSED + POLL_INTERVAL * k) \<noteq> ''False''"
        proof (cases k)
          case 0
          with p show ?thesis by simp
        next
          case (Suc k')
          with \<open>k < Suc m\<close> m(2) have
            "buildrun_status w (ELAPSED + POLL_INTERVAL + POLL_INTERVAL * k') \<noteq> ''True''
             \<and> buildrun_status w (ELAPSED + POLL_INTERVAL + POLL_INTERVAL * k') \<noteq> ''False''"
            by simp
          then show ?thesis unfolding sh Suc .
        qed
      qed
      show ?thesis
        apply (rule exI [of _ "Suc m"])
        using cnt out m(1,3,4) pend unfolding sh by simp
    next
      case False
      then have "poll_loop w brn ns (ELAPSED + POLL_INTERVAL) = ([], Done (ELAPSED + POLL_INTERVAL))"
        by (subst poll_loop.simps) simp
      with rec have "evs = []" "out = Done (ELAPSED + POLL_INTERVAL)" by simp_all
      with cnt out False p lt show ?thesis
        by (intro exI [of _ 0]) (simp add: status_polls_def)
    qed
  qed
qed


lemma wait_polls:
  "\<exists>m. status_polls (fst (wait_for_buildrun w brn ns)) = Suc m
       \<and> (\<forall>k<m. buildrun_status w (POLL_INTERVAL * k) \<noteq> ''True''
                \<and> buildrun_status w (POLL_INTERVAL * k) \<noteq> ''False'')
       \<and> POLL_INTERVAL * m < TIMEOUT
       \<and> (buildrun_status w (POLL_INTERVAL * m) = ''True''
            \<and> snd (wait_for_buildrun w brn ns) = None
          \<or> buildrun_status w (POLL_INTERVAL * m) = ''False''
            \<and> (\<exists>rc. snd (wait_for_buildrun w brn ns) = Some rc)
          \<or> buildrun_status w (POLL_INTERVAL * m) \<noteq> ''True''
            \<and> buildrun_status w (POLL_INTERVAL * m) \<noteq> ''False''
            \<and> TIMEOUT \<le> POLL_INTERVAL * m + POLL_INTERVAL
            \<and> snd (wait_for_buildrun w brn ns) = Some 1)"
proof -
  have "0 < TIMEOUT" by (simp add: TIMEOUT_def)
  from poll_loop_polls [OF this, of w brn ns] obtain m where m:
    "status_polls (fst (poll_loop w brn ns 0)) = Suc m"
    "\<forall>k<m. buildrun_status w (POLL_INTERVAL * k) \<noteq> ''True''
                \<and> buildrun_status w (POLL_INTERVAL * k) \<noteq> ''False''"
    "POLL_INTERVAL * m < TIMEOUT"
    "buildrun_status w (POLL_INTERVAL * m) = ''True''
            \<and> snd (poll_loop w brn ns 0) = Break (POLL_INTERVAL * m)
          \<or> buildrun_status w (POLL_INTERVAL * m) = ''False''
            \<and> (\<exists>rc. snd (poll_loop w brn ns 0) = Exit rc)
          \<or> buildrun_status w (POLL_INTERVAL * m) \<noteq> ''True''
            \<and> buildrun_status w (POLL_INTERVAL * m) \<noteq> ''False''
            \<and> TIMEOUT \<le> POLL_INTERVAL * m + POLL_INTERVAL
            \<and> (\<exists>e. snd (poll_loop w brn ns 0) = Done e)"
    by auto
  obtain evs out where pl: "poll_loop w brn ns 0 = (evs, out)" by (cases "poll_loop w brn ns 0")
  have dn: "TIMEOUT \<le> e" if "out = Done e" for e
    using poll_loop_Done [of w brn ns 0 e] pl that by simp
  have cnt: "status_polls (fst (wait_for_buildrun w brn ns)) = status_polls evs"
    using pl by (cases out) (auto simp: wait_for_buildrun_def status_polls_def)
  have res: "(out = Break (POLL_INTERVAL * m) \<longrightarrow> snd (wait_for_buildrun w brn ns) = None)
     \<and> ((\<exists>rc. out = Exit rc) \<longrightarrow> (\<exists>rc. snd (wait_for_buildrun w brn ns) = Some rc))
     \<and> ((\<exists>e. out = Done e) \<longrightarrow> snd (wait_for_buildrun w brn ns) = Some 1)"
    using pl m(3) dn by (cases out) (auto simp: wait_for_buildrun_def)
  show ?thesis
    apply (rule exI [of _ m])
    using m cnt res pl by auto
qed

lemma exec_events_subset:
  "exec steps = (evs, r) \<Longrightarrow> set evs \<subseteq> set (concat (map fst steps))"
proof -
  assume a: "exec steps = (evs, r)"
  from exec_take [of steps] obtain n where "fst (exec steps) = take n (concat (map fst steps))"
    by blast
  with a have "evs = take n (concat (map fst steps))" by simp
  then show ?thesis by (simp only: set_take_subset)
qed

lemma no_status_polls: "\<forall>e \<in> set evs. \<not> is_status_poll e \<Longrightarrow> status_polls evs = 0"
  by (simp add: status_polls_def filter_empty_conv)

lemma build_events:
  "e \<in> set (concat (map fst (steps_build v w))) \<Longrightarrow>
     \<not> is_status_poll e \<and> e \<noteq> KubectlWaitDeployment n ns"
  by (auto simp: steps_build_def echo_def errexit_def)

lemma deploy_events:
  "e \<in> set (concat (map fst (steps_deploy v w))) \<Longrightarrow> \<not> is_status_poll e"
  by (auto simp: steps_deploy_def echo_def errexit_def split: if_splits)

lemma build_segment_between:
  "exec (steps_build v w) = (eb, None) \<Longrightarrow>
   between_buildrun_and_deployment (eb @ rest) =
     KubectlApply (buildrun_manifest v (BUILDRUN_NAME v (date_epoch_seconds w))) 0
     # Echo (''BuildRun '' @ [CHR 0x27] @ BUILDRUN_NAME v (date_epoch_seconds w) @ [CHR 0x27]
            @ '' created.'')
     # takeWhile (\<lambda>e. applied_kind e \<noteq> Some Deployment) rest"
  by (auto simp: steps_build_def between_buildrun_and_deployment_def build_manifest_def
        buildrun_manifest_def split: if_splits)

lemma deploy_segment_wait:
  "exec (steps_deploy v w) = (ed, rd) \<Longrightarrow>
   KubectlWaitDeployment n ns \<in> set ed \<Longrightarrow> created_kinds ed = [Deployment, Service]"
  by (auto simp: steps_deploy_def deployment_manifest_def service_manifest_def exec_continue
        created_kinds_def List.map_filter_simps split: if_splits)

lemma script_shape:
  assumes "exec (script v w) = (evs, r)"
  shows "\<exists>eb rb ew rw ed rd.
     exec (steps_build v w) = (eb, rb) \<and> exec (steps_wait v w) = (ew, rw)
     \<and> exec (steps_deploy v w) = (ed, rd)
     \<and> (case rb of Some rc \<Rightarrow> evs = eb \<and> r = Some rc
        | None \<Rightarrow> (case rw of Some rc \<Rightarrow> evs = eb @ ew \<and> r = Some rc
                    | None \<Rightarrow> evs = eb @ ew @ ed \<and> r = rd))"
proof -
  obtain eb rb where B: "exec (steps_build v w) = (eb, rb)" by (cases "exec (steps_build v w)")
  obtain ew rw where W: "exec (steps_wait v w) = (ew, rw)" by (cases "exec (steps_wait v w)")
  obtain ed rd where D: "exec (steps_deploy v w) = (ed, rd)" by (cases "exec (steps_deploy v w)")
  have ex: "exec (script v w) = exec [(eb, rb), exec [(ew, rw), (ed, rd)]]"
    unfolding script_def exec_append B W D ..
  have "case rb of Some rc \<Rightarrow> evs = eb \<and> r = Some rc
        | None \<Rightarrow> (case rw of Some rc \<Rightarrow> evs = eb @ ew \<and> r = Some rc
                    | None \<Rightarrow> evs = eb @ ew @ ed \<and> r = rd)"
    using ex assms by (cases rb; cases rw; cases rd) auto
  with B W D show ?thesis by blast
qed


lemma wait_segment_events:
  "exec (steps_wait v w) =
     ([Echo [], Echo ''Step 3: Waiting for BuildRun to complete...'',
       Echo ''This may take several minutes depending on the build complexity.'']
      @ fst (wait_for_buildrun w (BUILDRUN_NAME v (date_epoch_seconds w)) (NAMESPACE v)),
      snd (wait_for_buildrun w (BUILDRUN_NAME v (date_epoch_seconds w)) (NAMESPACE v)))"
  by (cases "wait_for_buildrun w (BUILDRUN_NAME v (date_epoch_seconds w)) (NAMESPACE v)";
      cases "snd (wait_for_buildrun w (BUILDRUN_NAME v (date_epoch_seconds w)) (NAMESPACE v))")
     (simp_all add: steps_wait_def)

lemma segment_polls:
  assumes B: "exec (steps_build v w) = (eb, rb)" and W: "exec (steps_wait v w) = (ew, rw)"
    and D: "exec (steps_deploy v w) = (ed, rd)"
  shows "status_polls eb = 0"
    and "status_polls ew =
           status_polls (fst (wait_for_buildrun w (BUILDRUN_NAME v (date_epoch_seconds w)) (NAMESPACE v)))"
    and "status_polls ed = 0"
    and "status_polls (takeWhile P ed) = 0"
proof -
  show "status_polls eb = 0"
    using exec_events_subset [OF B] build_events [of _ v w] by (intro no_status_polls) blast
  show "status_polls ew =
           status_polls (fst (wait_for_buildrun w (BUILDRUN_NAME v (date_epoch_seconds w)) (NAMESPACE v)))"
    using W unfolding wait_segment_events by (auto simp: status_polls_def)
  have d: "\<forall>e \<in> set ed. \<not> is_status_poll e"
    using exec_events_subset [OF D] deploy_events [of _ v w] by blast
  then show "status_polls ed = 0" by (rule no_status_polls)
  from d have "\<forall>e \<in> set (takeWhile P ed). \<not> is_status_poll e"
    by (auto dest: set_takeWhileD)
  then show "status_polls (takeWhile P ed) = 0" by (rule no_status_polls)
qed

lemma script_polls_terminal:
  assumes ex: "exec (script v w) = (evs, r)" and br: "BuildRun \<in> set (created_kinds evs)"
  shows "\<exists>m. status_polls evs = Suc m
       \<and> (\<forall>k<m. buildrun_status w (POLL_INTERVAL * k) \<noteq> ''True''
                \<and> buildrun_status w (POLL_INTERVAL * k) \<noteq> ''False'')
       \<and> POLL_INTERVAL * m < TIMEOUT
       \<and> (buildrun_status w (POLL_INTERVAL * m) = ''True''
          \<or> buildrun_status w (POLL_INTERVAL * m) = ''False''
          \<or> TIMEOUT \<le> POLL_INTERVAL * m + POLL_INTERVAL)"
proof -
  from script_shape [OF ex] obtain eb rb ew rw ed rd where
    B: "exec (steps_build v w) = (eb, rb)" and W: "exec (steps_wait v w) = (ew, rw)"
    and D: "exec (steps_deploy v w) = (ed, rd)"
    and sh: "case rb of Some rc \<Rightarrow> evs = eb \<and> r = Some rc
        | None \<Rightarrow> (case rw of Some rc \<Rightarrow> evs = eb @ ew \<and> r = Some rc
                    | None \<Rightarrow> evs = eb @ ew @ ed \<and> r = rd)"
    by blast
  note p = segment_polls [OF B W D]
  have rb: "rb = None"
  proof (cases rb)
    case (Some rc)
    with sh build_segment [OF B] br show ?thesis by auto
  qed simp
  with sh have "evs = eb @ ew \<or> evs = eb @ ew @ ed" by (cases rw) auto
  with p(1,2,3) have
    "status_polls evs =
       status_polls (fst (wait_for_buildrun w (BUILDRUN_NAME v (date_epoch_seconds w)) (NAMESPACE v)))"
    by auto
  with wait_polls [of w "BUILDRUN_NAME v (date_epoch_seconds w)" "NAMESPACE v"]
  show ?thesis by metis
qed

lemma script_polls_before_deploy:
  assumes ex: "exec (script v w) = (evs, r)" and dp: "Deployment \<in> set (applied_kinds evs)"
  shows "\<exists>m. status_polls (between_buildrun_and_deployment evs) = Suc m
       \<and> (\<forall>k<m. buildrun_status w (POLL_INTERVAL * k) \<noteq> ''True''
                \<and> buildrun_status w (POLL_INTERVAL * k) \<noteq> ''False'')
       \<and> POLL_INTERVAL * m < TIMEOUT
       \<and> buildrun_status w (POLL_INTERVAL * m) = ''True''"
proof -
  let ?wf = "wait_for_buildrun w (BUILDRUN_NAME v (date_epoch_seconds w)) (NAMESPACE v)"
  from script_shape [OF ex] obtain eb rb ew rw ed rd where
    B: "exec (steps_build v w) = (eb, rb)" and W: "exec (steps_wait v w) = (ew, rw)"
    and D: "exec (steps_deploy v w) = (ed, rd)"
    and sh: "case rb of Some rc \<Rightarrow> evs = eb \<and> r = Some rc
        | None \<Rightarrow> (case rw of Some rc \<Rightarrow> evs = eb @ ew \<and> r = Some rc
                    | None \<Rightarrow> evs = eb @ ew @ ed \<and> r = rd)"
    by blast
  note p = segment_polls [OF B W D]
  from wait_segment [OF W] have rw: "rw = snd ?wf"
    and nw: "\<forall>e \<in> set ew. applied_kind e = None" by auto
  from nw no_apply_kinds [of ew] have kw: "applied_kinds ew = []" by simp
  have rb: "rb = None"
  proof (cases rb)
    case (Some rc)
    with sh build_segment [OF B] dp show ?thesis by auto
  qed simp
  have rwN: "rw = None"
  proof (cases rw)
    case (Some rc)
    with sh rb build_segment [OF B] kw dp show ?thesis by auto
  qed simp
  from sh rb rwN have evs: "evs = eb @ ew @ ed" by simp
  from B rb have "between_buildrun_and_deployment (eb @ ew @ ed) =
     KubectlApply (buildrun_manifest v (BUILDRUN_NAME v (date_epoch_seconds w))) 0
     # Echo (''BuildRun '' @ [CHR 0x27] @ BUILDRUN_NAME v (date_epoch_seconds w) @ [CHR 0x27]
            @ '' created.'')
     # takeWhile (\<lambda>e. applied_kind e \<noteq> Some Deployment) (ew @ ed)"
    by (simp add: build_segment_between)
  moreover have "takeWhile (\<lambda>e. applied_kind e \<noteq> Some Deployment) (ew @ ed)
     = ew @ takeWhile (\<lambda>e. applied_kind e \<noteq> Some Deployment) ed"
    using nw by (intro takeWhile_append2) simp
  ultimately have "status_polls (between_buildrun_and_deployment evs) = status_polls (fst ?wf)"
    unfolding evs using p(2) p(4) [of "\<lambda>e. applied_kind e \<noteq> Some Deployment"]
    by (simp add: status_polls_def)
  with wait_polls [of w "BUILDRUN_NAME v (date_epoch_seconds w)" "NAMESPACE v"] rw rwN
  show ?thesis by (metis option.distinct(1))
qed

lemma script_wait_after_service:
  assumes ex: "exec (script v w) = (evs, r)" and wt: "KubectlWaitDeployment n ns \<in> set evs"
  shows "created_kinds evs = [Build, BuildRun, Deployment, Service]"
proof -
  from script_shape [OF ex] obtain eb rb ew rw ed rd where
    B: "exec (steps_build v w) = (eb, rb)" and W: "exec (steps_wait v w) = (ew, rw)"
    and D: "exec (steps_deploy v w) = (ed, rd)"
    and sh: "case rb of Some rc \<Rightarrow> evs = eb \<and> r = Some rc
        | None \<Rightarrow> (case rw of Some rc \<Rightarrow> evs = eb @ ew \<and> r = Some rc
                    | None \<Rightarrow> evs = eb @ ew @ ed \<and> r = rd)"
    by blast
  have nb: "KubectlWaitDeployment n ns \<notin> set eb"
    using exec_events_subset [OF B] build_events [of "KubectlWaitDeployment n ns" v w n ns] by blast
  from wait_segment [OF W] have nw: "\<forall>e \<in> set ew. applied_kind e = None"
    and sw: "\<forall>e \<in> set ew. step_number e = None \<or> step_number e = Some 3" by auto
  from sw have nwt: "KubectlWaitDeployment n ns \<notin> set ew" by force
  from nw no_apply_kinds [of ew] have kw: "created_kinds ew = []" by simp
  have rb: "rb = None" using sh nb wt by (cases rb) auto
  have rwN: "rw = None" using sh rb nb nwt wt by (cases rw) auto
  from sh rb rwN have evs: "evs = eb @ ew @ ed" by simp
  with nb nwt wt have "KubectlWaitDeployment n ns \<in> set ed" by simp
  from deploy_segment_wait [OF D this] build_segment [OF B] rb kw show ?thesis
    unfolding evs by simp
qed

lemma wait_succeeds:
  assumes "POLL_INTERVAL * j < TIMEOUT" "buildrun_status w (POLL_INTERVAL * j) = ''True''"
    "\<forall>k<j. buildrun_status w (POLL_INTERVAL * k) \<noteq> ''True''
       \<and> buildrun_status w (POLL_INTERVAL * k) \<noteq> ''False''"
  shows "snd (wait_for_buildrun w brn ns) = None"
proof -
  from wait_polls [of w brn ns] obtain m where m:
    "\<forall>k<m. buildrun_status w (POLL_INTERVAL * k) \<noteq> ''True''
                \<and> buildrun_status w (POLL_INTERVAL * k) \<noteq> ''False''"
    "POLL_INTERVAL * m < TIMEOUT"
    "buildrun_status w (POLL_INTERVAL * m) = ''True''
            \<and> snd (wait_for_buildrun w brn ns) = None
          \<or> buildrun_status w (POLL_INTERVAL * m) = ''False''
            \<and> (\<exists>rc. snd (wait_for_buildrun w brn ns) = Some rc)
          \<or> buildrun_status w (POLL_INTERVAL * m) \<noteq> ''True''
            \<and> buildrun_status w (POLL_INTERVAL * m) \<noteq> ''False''
            \<and> TIMEOUT \<le> POLL_INTERVAL * m + POLL_INTERVAL
            \<and> snd (wait_for_buildrun w brn ns) = Some 1"
    by blast
  have "\<not> j < m" using m(1) assms(2) by blast
  moreover have "\<not> m < j"
  proof
    assume lt: "m < j"
    with assms(3) have p: "buildrun_status w (POLL_INTERVAL * m) \<noteq> ''True''"
      "buildrun_status w (POLL_INTERVAL * m) \<noteq> ''False''" by simp_all
    with m(3) have "TIMEOUT \<le> POLL_INTERVAL * m + POLL_INTERVAL" by blast
    moreover from lt have "POLL_INTERVAL * m + POLL_INTERVAL \<le> POLL_INTERVAL * j"
      by (simp add: POLL_INTERVAL_def)
    ultimately show False using assms(1) by simp
  qed
  ultimately have "m = j" by simp
  with m(3) assms(2) show ?thesis by auto
qed

lemma deploy_segment_applies:
  "exec (steps_deploy v w) = (ed, rd) \<Longrightarrow>
   fst (output_image w) = 0 \<Longrightarrow> fst (output_digest w) = 0 \<Longrightarrow>
   KubectlApply (deployment_manifest v (snd (output_image w))) (apply_rc w Deployment) \<in> set ed
   \<and> (apply_rc w Deployment = 0 \<longrightarrow>
        KubectlApply (service_manifest v) (apply_rc w Service) \<in> set ed)"
  by (auto simp: steps_deploy_def exec_continue split: if_splits)

lemma script_applies_deployment:
  assumes ex: "exec (script v w) = (evs, r)"
    and a: "apply_rc w Build = 0" "apply_rc w BuildRun = 0"
    and t: "POLL_INTERVAL * j < TIMEOUT" "buildrun_status w (POLL_INTERVAL * j) = ''True''"
      "\<forall>k<j. buildrun_status w (POLL_INTERVAL * k) \<noteq> ''True''
         \<and> buildrun_status w (POLL_INTERVAL * k) \<noteq> ''False''"
    and o: "fst (output_image w) = 0" "fst (output_digest w) = 0"
  shows "KubectlApply (deployment_manifest v (snd (output_image w))) (apply_rc w Deployment) \<in> set evs
   \<and> (apply_rc w Deployment = 0 \<longrightarrow>
        KubectlApply (service_manifest v) (apply_rc w Service) \<in> set evs)"
proof -
  from script_shape [OF ex] obtain eb rb ew rw ed rd where
    B: "exec (steps_build v w) = (eb, rb)" and W: "exec (steps_wait v w) = (ew, rw)"
    and D: "exec (steps_deploy v w) = (ed, rd)"
    and sh: "case rb of Some rc \<Rightarrow> evs = eb \<and> r = Some rc
        | None \<Rightarrow> (case rw of Some rc \<Rightarrow> evs = eb @ ew \<and> r = Some rc
                    | None \<Rightarrow> evs = eb @ ew @ ed \<and> r = rd)"
    by blast
  from build_segment_ok [OF a, of v] B have rb: "rb = None" by simp
  from wait_segment [OF W] wait_succeeds [OF t] have rw: "rw = None" by simp
  from sh rb rw have "evs = eb @ ew @ ed" by simp
  with deploy_segment_applies [OF D o] show ?thesis by simp
qed

lemma world_build_succeeds_polls:
  "status_polls (between_buildrun_and_deployment (fst (run Map.empty world_build_succeeds))) = 3
   \<and> status_polls (fst (run Map.empty world_build_succeeds)) = 3"
  by (simp add: run_def script_def steps_build_def steps_wait_def steps_deploy_def
        world_build_succeeds_def wait_for_buildrun_def poll_loop.simps TIMEOUT_def POLL_INTERVAL_def
        exit_status_def exec_continue status_polls_def between_buildrun_and_deployment_def
        build_manifest_def buildrun_manifest_def deployment_manifest_def service_manifest_def)

section \<open>Build before deploy\<close>

text \<open>
  C1.  In every run of the script, if the first terminal value of the BuildRun's
  \<open>Succeeded\<close> condition seen by the poll loop is \<open>False\<close>, or no poll before the
  timeout sees a terminal value, the script ends with a non-zero status and
  \<open>kubectl apply\<close> is run neither for the Deployment nor for the Service.  Conversely,
  whenever \<open>kubectl apply\<close> is run for the Deployment or the Service, some poll before
  the timeout saw \<open>Succeeded=True\<close> and no earlier poll saw a terminal value.
\<close>

theorem no_deploy_without_successful_build:
  "((\<exists>j. POLL_INTERVAL * j < TIMEOUT \<and> buildrun_status w (POLL_INTERVAL * j) = ''False''
         \<and> (\<forall>k<j. buildrun_status w (POLL_INTERVAL * k) \<noteq> ''True''
                  \<and> buildrun_status w (POLL_INTERVAL * k) \<noteq> ''False''))
     \<or> (\<forall>k. POLL_INTERVAL * k < TIMEOUT \<longrightarrow>
             buildrun_status w (POLL_INTERVAL * k) \<noteq> ''True''
             \<and> buildrun_status w (POLL_INTERVAL * k) \<noteq> ''False'')
    \<longrightarrow> snd (run env w) \<noteq> 0
        \<and> Deployment \<notin> set (applied_kinds (fst (run env w)))
        \<and> Service \<notin> set (applied_kinds (fst (run env w))))
   \<and> (Deployment \<in> set (applied_kinds (fst (run env w)))
        \<or> Service \<in> set (applied_kinds (fst (run env w)))
      \<longrightarrow> (\<exists>j. POLL_INTERVAL * j < TIMEOUT \<and> buildrun_status w (POLL_INTERVAL * j) = ''True''
             \<and> (\<forall>k<j. buildrun_status w (POLL_INTERVAL * k) \<noteq> ''True''
                      \<and> buildrun_status w (POLL_INTERVAL * k) \<noteq> ''False'')))"
proof -
  let ?v = "script_vars env"
  let ?wf = "wait_for_buildrun w (BUILDRUN_NAME ?v (date_epoch_seconds w)) (NAMESPACE ?v)"
  obtain evs r where ex: "exec (script ?v w) = (evs, r)" by (cases "exec (script ?v w)")
  then have run: "run env w = (evs, exit_status r)" by (simp add: run_def)
  note cases = script_cases [OF ex]
  have part1: "snd (run env w) \<noteq> 0 \<and> Deployment \<notin> set (applied_kinds (fst (run env w)))
        \<and> Service \<notin> set (applied_kinds (fst (run env w)))"
    if "\<exists>rc. snd ?wf = Some rc" 
    using cases that unfolding run by (auto simp: exit_status_def)
  have part2: "snd ?wf = None"
    if "Deployment \<in> set (applied_kinds (fst (run env w)))
        \<or> Service \<in> set (applied_kinds (fst (run env w)))"
    using cases that unfolding run by auto
  show ?thesis
  proof (intro conjI impI)
    assume h: "(\<exists>j. POLL_INTERVAL * j < TIMEOUT \<and> buildrun_status w (POLL_INTERVAL * j) = ''False''
         \<and> (\<forall>k<j. buildrun_status w (POLL_INTERVAL * k) \<noteq> ''True''
                  \<and> buildrun_status w (POLL_INTERVAL * k) \<noteq> ''False''))
     \<or> (\<forall>k. POLL_INTERVAL * k < TIMEOUT \<longrightarrow>
             buildrun_status w (POLL_INTERVAL * k) \<noteq> ''True''
             \<and> buildrun_status w (POLL_INTERVAL * k) \<noteq> ''False'')"
    have "\<exists>rc. snd ?wf = Some rc"
    proof (rule disjE [OF h])
      assume "\<exists>j. POLL_INTERVAL * j < TIMEOUT \<and> buildrun_status w (POLL_INTERVAL * j) = ''False''
         \<and> (\<forall>k<j. buildrun_status w (POLL_INTERVAL * k) \<noteq> ''True''
                  \<and> buildrun_status w (POLL_INTERVAL * k) \<noteq> ''False'')"
      then obtain j where "POLL_INTERVAL * j < TIMEOUT" "buildrun_status w (POLL_INTERVAL * j) = ''False''"
        "\<forall>k<j. buildrun_status w (POLL_INTERVAL * k) \<noteq> ''True''
                  \<and> buildrun_status w (POLL_INTERVAL * k) \<noteq> ''False''" by blast
      from wait_failed [OF this] show ?thesis by (metis snd_conv)
    next
      assume "\<forall>k. POLL_INTERVAL * k < TIMEOUT \<longrightarrow>
             buildrun_status w (POLL_INTERVAL * k) \<noteq> ''True''
             \<and> buildrun_status w (POLL_INTERVAL * k) \<noteq> ''False''"
      from wait_timed_out [OF this] show ?thesis by (metis snd_conv)
    qed
    from part1 [OF this]
    show "snd (run env w) \<noteq> 0" "Deployment \<notin> set (applied_kinds (fst (run env w)))"
      "Service \<notin> set (applied_kinds (fst (run env w)))" by simp_all
  next
    assume "Deployment \<in> set (applied_kinds (fst (run env w)))
        \<or> Service \<in> set (applied_kinds (fst (run env w)))"
    from wait_continues [OF part2 [OF this]]
    show "\<exists>j. POLL_INTERVAL * j < TIMEOUT \<and> buildrun_status w (POLL_INTERVAL * j) = ''True''
             \<and> (\<forall>k<j. buildrun_status w (POLL_INTERVAL * k) \<noteq> ''True''
                      \<and> buildrun_status w (POLL_INTERVAL * k) \<noteq> ''False'')" .
  qed
qed


theorem no_deploy_without_successful_build_witness:
  "snd (run Map.empty world_build_fails) \<noteq> 0
   \<and> Deployment \<notin> set (applied_kinds (fst (run Map.empty world_build_fails)))
   \<and> Service \<notin> set (applied_kinds (fst (run Map.empty world_build_fails)))
   \<and> snd (run Map.empty world_build_hangs) \<noteq> 0
   \<and> Deployment \<notin> set (applied_kinds (fst (run Map.empty world_build_hangs)))
   \<and> Service \<notin> set (applied_kinds (fst (run Map.empty world_build_hangs)))
   \<and> Deployment \<in> set (applied_kinds (fst (run Map.empty world_build_succeeds)))
   \<and> (\<exists>j. POLL_INTERVAL * j < TIMEOUT
          \<and> buildrun_status world_build_succeeds (POLL_INTERVAL * j) = ''True'')"
proof -
  have f: "\<exists>j. POLL_INTERVAL * j < TIMEOUT
         \<and> buildrun_status world_build_fails (POLL_INTERVAL * j) = ''False''
         \<and> (\<forall>k<j. buildrun_status world_build_fails (POLL_INTERVAL * k) \<noteq> ''True''
                  \<and> buildrun_status world_build_fails (POLL_INTERVAL * k) \<noteq> ''False'')"
    using world_build_fails_facts(3,4,5) by blast
  have s: "Deployment \<in> set (applied_kinds (fst (run Map.empty world_build_succeeds)))"
    using world_build_succeeds_run by simp
  show ?thesis
    using no_deploy_without_successful_build [of world_build_fails Map.empty]
      no_deploy_without_successful_build [of world_build_hangs Map.empty]
      no_deploy_without_successful_build [of world_build_succeeds Map.empty]
      f world_build_hangs_facts(3) s
    by blast
qed

section \<open>Order of the steps\<close>

text \<open>
  C2.  In every run of the script the commands follow the order of the steps: Build
  (step 1), BuildRun (step 2), the polls of the BuildRun (step 3), the reads of its
  output (step 4), Deployment and then Service (step 5), the wait for readiness (step 6).
  The resources applied are an initial part of Build, BuildRun, Deployment, Service, and
  all of them but possibly the last of the run were applied with success, so a resource
  is applied only after every earlier one was created.  Once the BuildRun is created it
  is polled, every ten seconds from 0, until a poll sees a terminal value or the next
  poll would be past the timeout.  When the Deployment is applied, the polls lie between
  the BuildRun and the Deployment in the trace, and the last of them saw
  \<open>Succeeded=True\<close>, the earlier ones no terminal value.  The wait for readiness
  occurs only in runs that created all four resources, and a run with status 0 created
  all four, in this order, and waited for the Deployment.
\<close>

theorem ordered_steps:
  "sorted (List.map_filter step_number (fst (run env w)))
   \<and> applied_kinds (fst (run env w)) \<in> set [[Build], [Build, BuildRun],
        [Build, BuildRun, Deployment], [Build, BuildRun, Deployment, Service]]
   \<and> (created_kinds (fst (run env w)) = applied_kinds (fst (run env w))
       \<or> created_kinds (fst (run env w)) = butlast (applied_kinds (fst (run env w))))
   \<and> (BuildRun \<in> set (created_kinds (fst (run env w))) \<longrightarrow>
        (\<exists>m. status_polls (fst (run env w)) = Suc m
           \<and> (\<forall>k<m. buildrun_status w (POLL_INTERVAL * k) \<noteq> ''True''
                    \<and> buildrun_status w (POLL_INTERVAL * k) \<noteq> ''False'')
           \<and> POLL_INTERVAL * m < TIMEOUT
           \<and> (buildrun_status w (POLL_INTERVAL * m) = ''True''
              \<or> buildrun_status w (POLL_INTERVAL * m) = ''False''
              \<or> TIMEOUT \<le> POLL_INTERVAL * m + POLL_INTERVAL)))
   \<and> (Deployment \<in> set (applied_kinds (fst (run env w))) \<longrightarrow>
        (\<exists>m. status_polls (between_buildrun_and_deployment (fst (run env w))) = Suc m
           \<and> (\<forall>k<m. buildrun_status w (POLL_INTERVAL * k) \<noteq> ''True''
                    \<and> buildrun_status w (POLL_INTERVAL * k) \<noteq> ''False'')
           \<and> POLL_INTERVAL * m < TIMEOUT
           \<and> buildrun_status w (POLL_INTERVAL * m) = ''True''))
   \<and> (\<forall>n ns. KubectlWaitDeployment n ns \<in> set (fst (run env w)) \<longrightarrow>
        created_kinds (fst (run env w)) = [Build, BuildRun, Deployment, Service])
   \<and> (snd (run env w) = 0 \<longrightarrow>
        created_kinds (fst (run env w)) = [Build, BuildRun, Deployment, Service]
        \<and> KubectlWaitDeployment (TOOL_NAME (script_vars env)) (NAMESPACE (script_vars env))
            \<in> set (fst (run env w)))"
proof -
  let ?v = "script_vars env"
  obtain evs r where ex: "exec (script ?v w) = (evs, r)" by (cases "exec (script ?v w)")
  then have run: "run env w = (evs, exit_status r)" by (simp add: run_def)
  have "sorted (List.map_filter step_number (fst (exec (script ?v w))))"
    by (rule sorted_exec [OF script_sorted])
  with ex have s: "sorted (List.map_filter step_number evs)" by simp
  from script_cases [OF ex] have k:
    "applied_kinds evs \<in> set [[Build], [Build, BuildRun],
        [Build, BuildRun, Deployment], [Build, BuildRun, Deployment, Service]]
     \<and> (created_kinds evs = applied_kinds evs \<or> created_kinds evs = butlast (applied_kinds evs))
     \<and> (exit_status r = 0 \<longrightarrow>
        created_kinds evs = [Build, BuildRun, Deployment, Service]
        \<and> KubectlWaitDeployment (TOOL_NAME ?v) (NAMESPACE ?v) \<in> set evs)"
    by (auto simp: exit_status_def)
  have p1: "BuildRun \<in> set (created_kinds evs) \<longrightarrow>
        (\<exists>m. status_polls evs = Suc m
           \<and> (\<forall>k<m. buildrun_status w (POLL_INTERVAL * k) \<noteq> ''True''
                    \<and> buildrun_status w (POLL_INTERVAL * k) \<noteq> ''False'')
           \<and> POLL_INTERVAL * m < TIMEOUT
           \<and> (buildrun_status w (POLL_INTERVAL * m) = ''True''
              \<or> buildrun_status w (POLL_INTERVAL * m) = ''False''
              \<or> TIMEOUT \<le> POLL_INTERVAL * m + POLL_INTERVAL))"
    using script_polls_terminal [OF ex] by blast
  have p2: "Deployment \<in> set (applied_kinds evs) \<longrightarrow>
        (\<exists>m. status_polls (between_buildrun_and_deployment evs) = Suc m
           \<and> (\<forall>k<m. buildrun_status w (POLL_INTERVAL * k) \<noteq> ''True''
                    \<and> buildrun_status w (POLL_INTERVAL * k) \<noteq> ''False'')
           \<and> POLL_INTERVAL * m < TIMEOUT
           \<and> buildrun_status w (POLL_INTERVAL * m) = ''True'')"
    using script_polls_before_deploy [OF ex] by blast
  have p3: "\<forall>n ns. KubectlWaitDeployment n ns \<in> set evs \<longrightarrow>
        created_kinds evs = [Build, BuildRun, Deployment, Service]"
    using script_wait_after_service [OF ex] by blast
  from s k p1 p2 p3 show ?thesis unfolding run fst_conv snd_conv by blast
qed

theorem ordered_steps_witness:
  "created_kinds (fst (run Map.empty world_build_succeeds)) = [Build, BuildRun, Deployment, Service]
   \<and> KubectlWaitDeployment ''weather-tool'' ''team1'' \<in> set (fst (run Map.empty world_build_succeeds))
   \<and> status_polls (between_buildrun_and_deployment (fst (run Map.empty world_build_succeeds))) = 3
   \<and> (\<exists>m. status_polls (between_buildrun_and_deployment (fst (run Map.empty world_build_succeeds)))
            = Suc m
          \<and> buildrun_status world_build_succeeds (POLL_INTERVAL * m) = ''True'')"
proof -
  have d: "Deployment \<in> set (applied_kinds (fst (run Map.empty world_build_succeeds)))"
    and z: "snd (run Map.empty world_build_succeeds) = 0"
    using world_build_succeeds_run by simp_all
  have v: "TOOL_NAME (script_vars Map.empty) = ''weather-tool''"
    "NAMESPACE (script_vars Map.empty) = ''team1''"
    by (simp_all add: script_vars_def or_else_def)
  from ordered_steps [of Map.empty world_build_succeeds] d z v world_build_succeeds_polls
  show ?thesis by auto
qed

section \<open>Names of BuildRuns\<close>

lemma BUILDRUN_NAME_eq_iff:
  "BUILDRUN_NAME v (date_epoch_seconds w1) = BUILDRUN_NAME v (date_epoch_seconds w2)
     \<longleftrightarrow> clock_ns w1 div 1000000000 = clock_ns w2 div 1000000000"
  by (auto simp: BUILDRUN_NAME_def date_epoch_seconds_def dest: show_nat_inj)

text \<open>
  C3.  Every build attempt is to get a BuildRun name of its own.  The script takes the
  suffix of the name from the clock in whole seconds, so two runs started within the
  same second compute the same name, and the second \<open>kubectl apply\<close> addresses the
  BuildRun of the first instead of starting a new one.  Here two runs start a half
  second apart: their clocks differ, their BuildRun names and manifests are equal.
\<close>

theorem buildrun_name_reused_same_second:
  "clock_ns world_build_succeeds \<noteq> clock_ns (world_build_succeeds\<lparr>clock_ns := 1700000000750000000\<rparr>)
   \<and> BUILDRUN_NAME (script_vars Map.empty) (date_epoch_seconds world_build_succeeds)
       = ''weather-tool-run-1700000000''
   \<and> BUILDRUN_NAME (script_vars Map.empty)
         (date_epoch_seconds (world_build_succeeds\<lparr>clock_ns := 1700000000750000000\<rparr>))
       = ''weather-tool-run-1700000000''
   \<and> buildrun_manifest (script_vars Map.empty)
         (BUILDRUN_NAME (script_vars Map.empty) (date_epoch_seconds world_build_succeeds))
       = buildrun_manifest (script_vars Map.empty)
           (BUILDRUN_NAME (script_vars Map.empty)
              (date_epoch_seconds (world_build_succeeds\<lparr>clock_ns := 1700000000750000000\<rparr>)))"
  by (simp add: world_build_succeeds_def date_epoch_seconds_def BUILDRUN_NAME_def script_vars_def
        Let_def show_nat.simps digit_char_def char_of_def bit_0)

section \<open>Timeout and failure of the build\<close>

text \<open>
  C5, as amended.  When the Build and the BuildRun were applied and no poll before the
  timeout sees a terminal value, the script prints \<open>Timeout waiting for BuildRun to
  complete\<close> and ends with status 1.  When the first terminal value seen is \<open>False\<close>,
  the script prints \<open>BuildRun failed with reason:\<close> and the reason, dumps the
  BuildRun and ends with status 1 as well, or with the status of the dump when the dump
  fails.  Neither outcome is reported as unknown: both end the script with a non-zero
  status, the same one unless the dump fails, and they differ in the last message.
\<close>

theorem timeout_and_failure_exit_alike:
  "(apply_rc w Build = 0 \<and> apply_rc w BuildRun = 0
     \<and> (\<forall>k. POLL_INTERVAL * k < TIMEOUT \<longrightarrow>
            buildrun_status w (POLL_INTERVAL * k) \<noteq> ''True''
            \<and> buildrun_status w (POLL_INTERVAL * k) \<noteq> ''False'')
    \<longrightarrow> (\<exists>pre. run env w = (pre @ [Echo ''Timeout waiting for BuildRun to complete''], 1)))
   \<and> (apply_rc w Build = 0 \<and> apply_rc w BuildRun = 0
       \<and> POLL_INTERVAL * j < TIMEOUT \<and> buildrun_status w (POLL_INTERVAL * j) = ''False''
       \<and> (\<forall>k<j. buildrun_status w (POLL_INTERVAL * k) \<noteq> ''True''
                \<and> buildrun_status w (POLL_INTERVAL * k) \<noteq> ''False'')
    \<longrightarrow> (\<exists>pre. run env w =
           (pre @ [Echo (''BuildRun failed with reason: '' @ buildrun_reason w (POLL_INTERVAL * j)),
                   KubectlGetBuildRunYaml (BUILDRUN_NAME (script_vars env) (date_epoch_seconds w))
                     (NAMESPACE (script_vars env))],
            if buildrun_yaml_rc w = 0 then 1 else buildrun_yaml_rc w)))"
  using run_build_hangs [of w env] run_build_fails [of w j env] by blast

theorem timeout_and_failure_exit_alike_witness:
  "snd (run Map.empty world_build_hangs) = 1
   \<and> last (fst (run Map.empty world_build_hangs)) = Echo ''Timeout waiting for BuildRun to complete''
   \<and> snd (run Map.empty world_build_fails) = 1
   \<and> last (butlast (fst (run Map.empty world_build_fails)))
       = Echo ''BuildRun failed with reason: BuildFailed''
   \<and> snd (run Map.empty (world_build_fails\<lparr>buildrun_yaml_rc := 7\<rparr>)) = 7"
proof -
  from timeout_and_failure_exit_alike [of world_build_hangs Map.empty 1] world_build_hangs_facts
  obtain p1 where
    "run Map.empty world_build_hangs = (p1 @ [Echo ''Timeout waiting for BuildRun to complete''], 1)"
    by blast
  moreover
  from timeout_and_failure_exit_alike [of world_build_fails Map.empty 1] world_build_fails_facts
  obtain p2 where
    "run Map.empty world_build_fails =
       (p2 @ [Echo (''BuildRun failed with reason: ''
                    @ buildrun_reason world_build_fails (POLL_INTERVAL * 1)),
              KubectlGetBuildRunYaml
                (BUILDRUN_NAME (script_vars Map.empty) (date_epoch_seconds world_build_fails))
                (NAMESPACE (script_vars Map.empty))],
        if buildrun_yaml_rc world_build_fails = 0 then 1 else buildrun_yaml_rc world_build_fails)"
    by blast
  moreover
  from timeout_and_failure_exit_alike [of "world_build_fails\<lparr>buildrun_yaml_rc := 7\<rparr>" Map.empty 1]
    world_build_fails_dump_facts
  obtain p3 where
    "run Map.empty (world_build_fails\<lparr>buildrun_yaml_rc := 7\<rparr>) =
       (p3 @ [Echo (''BuildRun failed with reason: ''
                    @ buildrun_reason (world_build_fails\<lparr>buildrun_yaml_rc := 7\<rparr>) (POLL_INTERVAL * 1)),
              KubectlGetBuildRunYaml
                (BUILDRUN_NAME (script_vars Map.empty)
                   (date_epoch_seconds (world_build_fails\<lparr>buildrun_yaml_rc := 7\<rparr>)))
                (NAMESPACE (script_vars Map.empty))],
        if buildrun_yaml_rc (world_build_fails\<lparr>buildrun_yaml_rc := 7\<rparr>) = 0 then 1
        else buildrun_yaml_rc (world_build_fails\<lparr>buildrun_yaml_rc := 7\<rparr>))"
    by blast
  ultimately show ?thesis
    by (simp add: butlast_append world_build_fails_def world_build_succeeds_def POLL_INTERVAL_def)
qed

text \<open>
  A build that never reaches a terminal condition and a build that fails end the script
  with the same status.
\<close>

theorem timeout_collapsed_counterexample:
  "snd (run Map.empty world_build_hangs) = 1 \<and> snd (run Map.empty world_build_fails) = 1"
proof -
  have "buildrun_yaml_rc world_build_fails = 0"
    by (simp add: world_build_fails_def world_build_succeeds_def)
  with run_build_fails [OF world_build_fails_facts, of Map.empty]
    run_build_hangs [OF world_build_hangs_facts, of Map.empty]
  show ?thesis by auto
qed

section \<open>Name of the MCP Service\<close>

text \<open>
  C6.  When the Build and the BuildRun are applied, the first terminal value polled is
  \<open>Succeeded=True\<close> and the output of the BuildRun is read, the script applies a
  Deployment with the plain tool name, and, once that is created, a Service with the
  tool name and the suffix \<open>-mcp\<close>; for the script the two names are \<open>weather-tool\<close>
  and \<open>weather-tool-mcp\<close>.  No run applies a Service or a Deployment with another
  name, and the two manifests are named so whatever the tool name is.  The in-cluster
  MCP URL of the tool detail page is built from the name with the suffix \<open>-mcp\<close>, the
  namespace and the port 8000, which are the name, the namespace and the port of the
  Service of the script; it is also the URL shown when the tool has no route.
\<close>

theorem tool_service_suffix:
  "(apply_rc w Build = 0 \<and> apply_rc w BuildRun = 0
     \<and> POLL_INTERVAL * j < TIMEOUT \<and> buildrun_status w (POLL_INTERVAL * j) = ''True''
     \<and> (\<forall>k<j. buildrun_status w (POLL_INTERVAL * k) \<noteq> ''True''
              \<and> buildrun_status w (POLL_INTERVAL * k) \<noteq> ''False'')
     \<and> fst (output_image w) = 0 \<and> fst (output_digest w) = 0
    \<longrightarrow> (\<exists>d. KubectlApply d (apply_rc w Deployment) \<in> set (fst (run env w))
             \<and> m_kind d = Deployment \<and> m_name d = ''weather-tool'')
        \<and> (apply_rc w Deployment = 0 \<longrightarrow>
             (\<exists>s. KubectlApply s (apply_rc w Service) \<in> set (fst (run env w))
                 \<and> m_kind s = Service \<and> m_name s = ''weather-tool-mcp''
                 \<and> m_namespace s = NAMESPACE (script_vars env)
                 \<and> service_port s = Some 8000)))
   \<and> (KubectlApply m rc \<in> set (fst (run env w)) \<longrightarrow>
      (m_kind m = Service \<longrightarrow> m_name m = TOOL_NAME (script_vars env) @ ''-mcp'')
      \<and> (m_kind m = Deployment \<longrightarrow> m_name m = TOOL_NAME (script_vars env)))
   \<and> m_name (service_manifest v) = TOOL_NAME v @ ''-mcp''
   \<and> m_name (deployment_manifest v img) = TOOL_NAME v
   \<and> mcpInClusterUrl (TOOL_NAME v) (NAMESPACE v)
       = ''http://'' @ m_name (service_manifest v) @ ''.'' @ m_namespace (service_manifest v)
         @ ''.svc.cluster.local:'' @ show_nat 8000 @ ''/mcp''
   \<and> mcpInClusterUrl n ns = ''http://'' @ (n @ ''-mcp'') @ ''.'' @ ns @ ''.svc.cluster.local:8000/mcp''
   \<and> toolExternalUrl False n ns host = mcpInClusterUrl n ns"
proof -
  let ?v = "script_vars env"
  obtain evs r where ex: "exec (script ?v w) = (evs, r)" by (cases "exec (script ?v w)")
  then have run: "fst (run env w) = evs" by (simp add: run_def)
  have tn: "TOOL_NAME ?v = ''weather-tool''" by (simp add: script_vars_def Let_def)
  have a: "(\<exists>d. KubectlApply d (apply_rc w Deployment) \<in> set evs
             \<and> m_kind d = Deployment \<and> m_name d = ''weather-tool'')
        \<and> (apply_rc w Deployment = 0 \<longrightarrow>
             (\<exists>s. KubectlApply s (apply_rc w Service) \<in> set evs
                 \<and> m_kind s = Service \<and> m_name s = ''weather-tool-mcp''
                 \<and> m_namespace s = NAMESPACE ?v \<and> service_port s = Some 8000))"
    if h: "apply_rc w Build = 0 \<and> apply_rc w BuildRun = 0
     \<and> POLL_INTERVAL * j < TIMEOUT \<and> buildrun_status w (POLL_INTERVAL * j) = ''True''
     \<and> (\<forall>k<j. buildrun_status w (POLL_INTERVAL * k) \<noteq> ''True''
              \<and> buildrun_status w (POLL_INTERVAL * k) \<noteq> ''False'')
     \<and> fst (output_image w) = 0 \<and> fst (output_digest w) = 0"
  proof -
    from h script_applies_deployment [OF ex, of j]
    have d: "KubectlApply (deployment_manifest ?v (snd (output_image w))) (apply_rc w Deployment)
               \<in> set evs"
      and s: "apply_rc w Deployment = 0 \<longrightarrow>
               KubectlApply (service_manifest ?v) (apply_rc w Service) \<in> set evs"
      by blast+
    have dn: "m_kind (deployment_manifest ?v (snd (output_image w))) = Deployment
        \<and> m_name (deployment_manifest ?v (snd (output_image w))) = ''weather-tool''"
      by (simp add: deployment_manifest_def tn)
    have sn: "m_kind (service_manifest ?v) = Service
        \<and> m_name (service_manifest ?v) = ''weather-tool-mcp''
        \<and> m_namespace (service_manifest ?v) = NAMESPACE ?v
        \<and> service_port (service_manifest ?v) = Some 8000"
      by (simp add: service_manifest_def service_port_def tn)
    from d dn s sn show ?thesis by blast
  qed
  have b: "(m_kind m = Service \<longrightarrow> m_name m = TOOL_NAME ?v @ ''-mcp'')
      \<and> (m_kind m = Deployment \<longrightarrow> m_name m = TOOL_NAME ?v)"
    if "KubectlApply m rc \<in> set (fst (run env w))"
  proof -
    from that run_events_subset [of env w]
    have "KubectlApply m rc \<in> set (concat (map fst (script ?v w)))" by blast
    from script_applies [OF this] show ?thesis
      by (auto simp: build_manifest_def buildrun_manifest_def deployment_manifest_def
            service_manifest_def)
  qed
  have c: "m_name (service_manifest v) = TOOL_NAME v @ ''-mcp''
   \<and> m_name (deployment_manifest v img) = TOOL_NAME v
   \<and> mcpInClusterUrl (TOOL_NAME v) (NAMESPACE v)
       = ''http://'' @ m_name (service_manifest v) @ ''.'' @ m_namespace (service_manifest v)
         @ ''.svc.cluster.local:'' @ show_nat 8000 @ ''/mcp''
   \<and> mcpInClusterUrl n ns = ''http://'' @ (n @ ''-mcp'') @ ''.'' @ ns @ ''.svc.cluster.local:8000/mcp''
   \<and> toolExternalUrl False n ns host = mcpInClusterUrl n ns"
    by (simp add: service_manifest_def deployment_manifest_def mcpInClusterUrl_def
          toolExternalUrl_def show_nat.simps digit_char_def char_of_def bit_0)
  from a b c show ?thesis unfolding run by blast
qed

theorem tool_service_suffix_witness:
  "(\<exists>d. KubectlApply d 0 \<in> set (fst (run Map.empty world_build_succeeds))
       \<and> m_kind d = Deployment \<and> m_name d = ''weather-tool'')
   \<and> (\<exists>s. KubectlApply s 0 \<in> set (fst (run Map.empty world_build_succeeds))
       \<and> m_kind s = Service \<and> m_name s = ''weather-tool-mcp'' \<and> m_namespace s = ''team1'')
   \<and> mcpInClusterUrl ''weather-tool'' ''team1''
       = ''http://weather-tool-mcp.team1.svc.cluster.local:8000/mcp''"
proof -
  have ns: "NAMESPACE (script_vars Map.empty) = ''team1''"
    by (simp add: script_vars_def or_else_def)
  from tool_service_suffix [of world_build_succeeds 2 Map.empty
      "service_manifest (script_vars Map.empty)" 0 "script_vars Map.empty" "[]"
      "''weather-tool''" "''team1''" "[]"]
    world_build_succeeds_facts ns
  show ?thesis by auto
qed

section \<open>Validation of the import form\<close>

lemma split_on_nonempty: "split_on sep s \<noteq> []"
  by (induction s) (auto split: list.splits)

lemma list_all_butlast_last:
  "xs \<noteq> [] \<Longrightarrow> list_all P xs \<longleftrightarrow> list_all P (butlast xs) \<and> P (last xs)"
  by (induction xs) auto

lemma name_regex_test_iff:
  "name_regex_test s \<longleftrightarrow>
     s \<noteq> [] \<and> list_all is_lower_alnum_dash s \<and> is_lower_alnum (hd s) \<and> is_lower_alnum (last s)"
proof (cases s)
  case Nil
  then show ?thesis by simp
next
  case (Cons c cs)
  show ?thesis
  proof (cases cs)
    case Nil
    with Cons show ?thesis by (auto simp: is_lower_alnum_dash_def)
  next
    case (Cons d ds)
    have f1: "list_all is_lower_alnum_dash (d # ds) \<longleftrightarrow>
       list_all is_lower_alnum_dash (butlast (d # ds)) \<and> is_lower_alnum_dash (last (d # ds))"
      by (rule list_all_butlast_last) simp
    have f2: "name_regex_test (c # d # ds) \<longleftrightarrow>
       is_lower_alnum c \<and> list_all is_lower_alnum_dash (butlast (d # ds))
       \<and> is_lower_alnum (last (d # ds))"
      by simp
    have f3: "is_lower_alnum x \<Longrightarrow> is_lower_alnum_dash x" for x
      by (simp add: is_lower_alnum_dash_def)
    have f4: "list_all is_lower_alnum_dash (c # d # ds) \<longleftrightarrow>
       is_lower_alnum_dash c \<and> list_all is_lower_alnum_dash (d # ds)"
      by simp
    have "name_regex_test (c # d # ds) \<longleftrightarrow>
       list_all is_lower_alnum_dash (c # d # ds) \<and> is_lower_alnum c
       \<and> is_lower_alnum (last (d # ds))"
      using f1 f2 f3 [of c] f3 [of "last (d # ds)"] f4 by blast
    with \<open>s = c # cs\<close> Cons show ?thesis by simp
  qed
qed

lemma validateForm_ok_iff:
  "snd (validateForm p) \<longleftrightarrow>
     \<not> (finalName p = [] \<or> \<not> name_regex_test (finalName p)
        \<or> (deploymentMethod p = DM_source \<and>
            (gitUrl p = [] \<or> (gitPath p = [] \<and> selectedExample p = [])
             \<or> (registryType p \<noteq> ''local'' \<and> registryNamespace p = [])))
        \<or> (deploymentMethod p \<noteq> DM_source \<and> containerImage p = []))"
  by (simp add: validateForm_def validate_name_def validate_source_def validate_image_def Let_def
        split: prod.splits)

lemma handleSubmit_None_iff: "snd (handleSubmit p) = None \<longleftrightarrow> \<not> snd (validateForm p)"
  by (simp add: handleSubmit_def Let_def split: prod.splits)

text \<open>
  C4, as amended.  Submission issues no create call exactly when \<open>validateForm\<close>
  fails, that is when the final name (the typed name, or the name derived from the path
  or image) is empty or does not match the pattern of lower-case letters, digits and
  inner hyphens, or, for a source build, the git URL is empty, or both the path and the
  example are empty, or an external registry has no namespace, or, for an image
  deployment, the image is empty.  Otherwise the create call is issued with the final
  name, the service ports as they are and the environment variables that have a name
  and a value or reference; repeated ports and repeated variable names are not looked
  for.
\<close>

theorem submit_blocked_iff_form_invalid:
  "(snd (handleSubmit p) = None \<longleftrightarrow>
     (finalName p = [] \<or> \<not> name_regex_test (finalName p)
        \<or> (deploymentMethod p = DM_source \<and>
            (gitUrl p = [] \<or> (gitPath p = [] \<and> selectedExample p = [])
             \<or> (registryType p \<noteq> ''local'' \<and> registryNamespace p = [])))
        \<or> (deploymentMethod p = DM_image \<and> containerImage p = [])))
   \<and> (\<forall>c. snd (handleSubmit p) = Some c \<longrightarrow>
         cr_name c = finalName p \<and> cr_servicePorts c = servicePorts p
         \<and> cr_envVars c = submitted_envVars p)"
proof -
  have m: "deploymentMethod p \<noteq> DM_source \<longleftrightarrow> deploymentMethod p = DM_image"
    by (cases "deploymentMethod p") auto
  have a: "snd (handleSubmit p) = None \<longleftrightarrow>
     (finalName p = [] \<or> \<not> name_regex_test (finalName p)
        \<or> (deploymentMethod p = DM_source \<and>
            (gitUrl p = [] \<or> (gitPath p = [] \<and> selectedExample p = [])
             \<or> (registryType p \<noteq> ''local'' \<and> registryNamespace p = [])))
        \<or> (deploymentMethod p = DM_image \<and> containerImage p = []))"
    unfolding handleSubmit_None_iff validateForm_ok_iff m by blast
  have b: "\<forall>c. snd (handleSubmit p) = Some c \<longrightarrow>
         cr_name c = finalName p \<and> cr_servicePorts c = servicePorts p
         \<and> cr_envVars c = submitted_envVars p"
    by (auto simp: handleSubmit_def Let_def split: prod.splits if_splits)
  from a b show ?thesis by blast
qed

theorem submit_blocked_iff_form_invalid_witness:
  "snd (handleSubmit initial_page) = None
   \<and> (\<exists>c. snd (handleSubmit page_with_duplicates) = Some c \<and> cr_name c = ''my-agent''
          \<and> cr_servicePorts c = servicePorts page_with_duplicates)"
proof -
  have "snd (handleSubmit initial_page) = None"
    using submit_blocked_iff_form_invalid [of initial_page]
    by (simp add: initial_page_def finalName_def getNameFromPath_def)
  moreover have "snd (handleSubmit page_with_duplicates) \<noteq> None"
    using submit_blocked_iff_form_invalid [of page_with_duplicates]
    by (simp add: page_with_duplicates_def addServicePort_def initial_page_def finalName_def
          is_lower_alnum_def is_lower_alnum_dash_def)
  moreover have "finalName page_with_duplicates = ''my-agent''"
    by (simp add: page_with_duplicates_def addServicePort_def initial_page_def finalName_def)
  ultimately show ?thesis
    using submit_blocked_iff_form_invalid [of page_with_duplicates] by auto
qed

text \<open>
  A form with a valid name, two service ports with the same port and two environment
  variables with the same name is submitted: the create call is issued.
\<close>

theorem duplicates_submitted_counterexample:
  "\<not> distinct (map sp_port (servicePorts page_with_duplicates))
   \<and> \<not> distinct (map ev_name (envVars page_with_duplicates))
   \<and> name_regex_test (finalName page_with_duplicates)
   \<and> snd (handleSubmit page_with_duplicates) \<noteq> None"
  by (simp add: page_with_duplicates_def addServicePort_def initial_page_def handleSubmit_def
        validateForm_def validate_name_def validate_source_def Let_def finalName_def
        is_lower_alnum_def is_lower_alnum_dash_def)

section \<open>Totality of the status normalization\<close>




end
